theory Spec2Isabelle
  imports Main "HOL-Library.Sublist" "HOL-Library.Multiset"
begin

section \<open>Data model\<close>

text \<open>
  The checkpoint manager of \<^verbatim>\<open>src/checkpoint.ts\<close> keeps, per project, a git
  repository (through the isomorphic-git library) whose \<^verbatim>\<open>snapshots\<close> directory
  mirrors the project directory. The model below is the state those operations read and
  write: the refs, the commit objects, the ids of the other stored objects, the files of
  the snapshots directory and the files of the project directory.

  Strings are lists of 8-bit characters. A directory is the finite map from the relative
  paths of its files to their bytes, a path being the list of its components; empty
  directories are not represented, as in git trees.
\<close>

type_synonym oid = string
type_synonym bytes = string
type_synonym path = "string list"
type_synonym files = "path \<rightharpoonup> bytes"

text \<open>A stored tree object with its children resolved: a blob carries its id and its
  bytes, a tree its id and its named entries.\<close>

datatype tnode = TBlob oid bytes | TTree oid "(string \<times> tnode) list"

record commit =
  tree_oid :: oid
  entries :: "(string \<times> tnode) list"
  parent :: "oid option"
  commit_message :: string
  committer_timestamp :: nat

text \<open>The interface \<^verbatim>\<open>CheckpointData\<close>. The field \<^verbatim>\<open>timestamp\<close> is an ISO string
  in the source; the model keeps the number of milliseconds that string renders, which
  is what \<^verbatim>\<open>new Date(timestamp).getTime()\<close> reads back.\<close>

record CheckpointData =
  cp_id :: oid
  sessionId :: string
  promptIndex :: nat
  message :: string
  timestamp :: nat
  projectPath :: string

text \<open>The interface \<^verbatim>\<open>ListOptions\<close> without its field \<^verbatim>\<open>all\<close>: the branch of
  \<^verbatim>\<open>list\<close> for \<^verbatim>\<open>options.all\<close> hands over to \<^verbatim>\<open>listAllProjects\<close>, which reads the
  repositories of other projects and is outside this model. Limits are natural numbers.\<close>

record ListOptions =
  opt_sessionId :: "string option"
  limit :: "nat option"

text \<open>Errors of the library, and the errors the manager throws. The source throws plain
  \<^verbatim>\<open>Error\<close> objects told apart by their text: \<open>CheckpointNotFound id\<close> is
  \<^verbatim>\<open>Checkpoint ${id} not found\<close>, \<open>NoRestoreToCancel\<close> is
  \<^verbatim>\<open>No restore to cancel - ORIG_HEAD not found\<close>, \<open>GitOperationFailed name e\<close> is what
  \<^verbatim>\<open>safeGitOperation\<close> throws, \<open>GitError e\<close> is a library error that reaches the
  caller unwrapped, and \<open>FsError name\<close> is what the file-system function of that name
  throws. \<open>InternalError\<close> is the library failing on the disk.\<close>

datatype git_error = NotFoundError | AmbiguousError | InternalError

datatype error =
    GitOperationFailed string git_error
  | GitError git_error
  | FsError string
  | CheckpointNotFound string
  | NoRestoreToCancel

text \<open>What an operation did to the repository and to the project directory, in the
  order it did it.\<close>

datatype event =
    EvResolveRef string
  | EvWriteRef string oid
  | EvCheckout oid
  | EvSyncProjectToSnapshots
  | EvAdd
  | EvCommit oid
  | EvCleanProject
  | EvCopyToProject

record repo =
  refs :: "string \<rightharpoonup> oid"
  commits :: "(oid \<times> commit) list"
  objects :: "oid list"
  snapshots :: files
  project :: files
  trace :: "event list"

text \<open>
  Which writes fail. An operation that writes to the disk may throw; \<open>failing\<close> says,
  for the name its call site gives to \<^verbatim>\<open>safeGitOperation\<close> (for a file-system
  function, its own name), whether it does. An operation that writes many files and
  throws has dealt with some of them: \<open>reached\<close> holds of the paths it had dealt with.
  Operations that only read fail for what they read alone (an absent ref, an unknown
  id).
\<close>

record faults =
  failing :: "string \<Rightarrow> bool"
  reached :: "path \<Rightarrow> bool"

definition no_faults :: faults where
  "no_faults = \<lparr>failing = (\<lambda>name. False), reached = (\<lambda>p. False)\<rparr>"

text \<open>The files of \<open>new\<close> on the paths reached and those of \<open>old\<close> on the others.\<close>

definition partly :: "faults \<Rightarrow> files \<Rightarrow> files \<Rightarrow> files" where
  "partly f new old = (\<lambda>p. if reached f p then new p else old p)"

text \<open>What \<^verbatim>\<open>create\<close> reads from the process and what the library computes for it:
  the two environment variables, the clock, the working directory, the readable
  transcripts (for a path, the roles of the entries of its \<^verbatim>\<open>messages\<close> array when the
  file exists and parses to an object with such an array), and the library's hashing of
  a directory into a tree and of a commit into its id.\<close>

record env =
  CCHECKPOINT_SESSION_ID :: "string option"
  CCHECKPOINT_TRANSCRIPT_PATH :: "string option"
  now :: nat
  cwd :: string
  transcripts :: "string \<rightharpoonup> string list"
  write_tree :: "files \<Rightarrow> oid \<times> (string \<times> tnode) list"
  commit_sha :: "oid \<Rightarrow> oid option \<Rightarrow> string \<Rightarrow> nat \<Rightarrow> oid"

section \<open>Strings and paths\<close>

text \<open>\<^verbatim>\<open>s.includes(pat)\<close> and \<^verbatim>\<open>s.startsWith(pat)\<close> of JavaScript.\<close>

fun includes_str :: "string \<Rightarrow> string \<Rightarrow> bool" where
  "includes_str [] pat = (pat = [])"
| "includes_str (c # cs) pat = (prefix pat (c # cs) \<or> includes_str cs pat)"

definition startsWith :: "string \<Rightarrow> string \<Rightarrow> bool" where
  "startsWith s pat = prefix pat s"

fun join_path :: "path \<Rightarrow> string" where
  "join_path [] = []"
| "join_path [n] = n"
| "join_path (n # ns) = n @ ''/'' @ join_path ns"

section \<open>The library operations the manager calls\<close>

text \<open>
  isomorphic-git is not part of the repository; its operations are modelled as the
  library behaves at their call sites. \<open>resolveRef\<close> reads a ref and fails when it is
  absent; \<open>writeRef\<close> with \<^verbatim>\<open>force\<close> overwrites a ref, or throws and leaves it;
  \<open>expandOid\<close> looks in the directory of stored objects named by the first two
  characters of the given string for the ids that start with the string, and fails when
  none or several do, so a string of fewer than two characters finds nothing;
  \<open>readCommit\<close> fails unless the id is that of a stored commit; \<open>checkout\<close> of the
  path \<^verbatim>\<open>snapshots\<close> with \<^verbatim>\<open>force\<close> makes the snapshots directory hold the files of the
  commit's \<^verbatim>\<open>snapshots\<close> tree (the directory holds no untracked file, every file copied
  there being staged by \<^verbatim>\<open>create\<close>), or throws with some of them written; \<open>log\<close>
  follows the parent links from \<^verbatim>\<open>HEAD\<close> until \<^verbatim>\<open>depth\<close> commits are collected.
\<close>

definition safeGitOperation :: "git_error + 'a \<Rightarrow> string \<Rightarrow> error + 'a" where
  "safeGitOperation operation operationName =
     (case operation of
        Inl e \<Rightarrow> Inl (GitOperationFailed operationName e)
      | Inr v \<Rightarrow> Inr v)"

definition emit :: "event \<Rightarrow> repo \<Rightarrow> repo" where
  "emit e s = s\<lparr>trace := trace s @ [e]\<rparr>"

definition lookup_ref :: "repo \<Rightarrow> string \<Rightarrow> git_error + oid" where
  "lookup_ref s r = (case refs s r of None \<Rightarrow> Inl NotFoundError | Some v \<Rightarrow> Inr v)"

definition resolveRef :: "repo \<Rightarrow> string \<Rightarrow> (git_error + oid) \<times> repo" where
  "resolveRef s r = (lookup_ref s r, emit (EvResolveRef r) s)"

definition writeRef :: "faults \<Rightarrow> string \<Rightarrow> repo \<Rightarrow> string \<Rightarrow> oid \<Rightarrow> (git_error + unit) \<times> repo" where
  "writeRef f name s r v =
     (if failing f name then (Inl InternalError, s)
      else (Inr (), emit (EvWriteRef r v) (s\<lparr>refs := (refs s)(r \<mapsto> v)\<rparr>)))"

definition known_oids :: "repo \<Rightarrow> oid list" where
  "known_oids s = map fst (commits s) @ objects s"

definition oid_matches :: "repo \<Rightarrow> string \<Rightarrow> oid list" where
  "oid_matches s short =
     remdups (filter (\<lambda>x. take 2 x = take 2 short \<and> startsWith x short) (known_oids s))"

definition expandOid :: "repo \<Rightarrow> string \<Rightarrow> git_error + oid" where
  "expandOid s short =
     (case oid_matches s short of
        [] \<Rightarrow> Inl NotFoundError
      | [x] \<Rightarrow> Inr x
      | _ \<Rightarrow> Inl AmbiguousError)"

definition readCommit :: "repo \<Rightarrow> oid \<Rightarrow> git_error + commit" where
  "readCommit s x = (case map_of (commits s) x of None \<Rightarrow> Inl NotFoundError | Some c \<Rightarrow> Inr c)"

fun files_of :: "path \<Rightarrow> tnode \<Rightarrow> (path \<times> bytes) list" where
  "files_of p (TBlob h b) = [(p, b)]"
| "files_of p (TTree h cs) = concat (map (\<lambda>nc. files_of (p @ [fst nc]) (snd nc)) cs)"

definition snapshot_files :: "commit \<Rightarrow> files" where
  "snapshot_files c =
     (case map_of (entries c) ''snapshots'' of
        Some (TTree h cs) \<Rightarrow> map_of (files_of [] (TTree h cs))
      | _ \<Rightarrow> Map.empty)"

definition checkout :: "faults \<Rightarrow> string \<Rightarrow> repo \<Rightarrow> oid \<Rightarrow> (git_error + unit) \<times> repo" where
  "checkout f name s x =
     (case readCommit s x of
        Inl e \<Rightarrow> (Inl e, s)
      | Inr c \<Rightarrow>
          if failing f name
          then (Inl InternalError, s\<lparr>snapshots := partly f (snapshot_files c) (snapshots s)\<rparr>)
          else (Inr (), emit (EvCheckout x) (s\<lparr>snapshots := snapshot_files c\<rparr>)))"

fun log_from :: "(oid \<times> commit) list \<Rightarrow> nat \<Rightarrow> oid \<Rightarrow> git_error + (oid \<times> commit) list" where
  "log_from cs 0 x = Inr []"
| "log_from cs (Suc n) x =
     (case map_of cs x of
        None \<Rightarrow> Inl NotFoundError
      | Some c \<Rightarrow>
          if n = 0 then Inr [(x, c)]
          else (case parent c of
                  None \<Rightarrow> Inr [(x, c)]
                | Some p \<Rightarrow>
                    (case log_from cs n p of
                       Inl e \<Rightarrow> Inl e
                     | Inr r \<Rightarrow> Inr ((x, c) # r))))"

definition git_log :: "repo \<Rightarrow> nat \<Rightarrow> git_error + (oid \<times> commit) list" where
  "git_log s depth =
     (case lookup_ref s ''HEAD'' of
        Inl e \<Rightarrow> Inl e
      | Inr h \<Rightarrow> log_from (commits s) depth h)"

section \<open>Synchronising the project and the snapshots directory\<close>

definition sync_ignorePatterns :: "string list" where
  "sync_ignorePatterns = [''node_modules'', ''.git'', ''.ccheckpoint'']"

text \<open>An entry of the project directory that \<^verbatim>\<open>syncSnapshotsToProject\<close> leaves in place.\<close>

definition kept_item :: "string \<Rightarrow> bool" where
  "kept_item item = list_ex (\<lambda>pattern. includes_str item pattern) sync_ignorePatterns"

definition kept_path :: "path \<Rightarrow> bool" where
  "kept_path p = (case p of [] \<Rightarrow> False | item # _ \<Rightarrow> kept_item item)"

text \<open>The directory after the loop that removes every entry not left in place.\<close>

definition clean_files :: "files \<Rightarrow> files" where
  "clean_files f = (\<lambda>p. if kept_path p then f p else None)"

definition syncSnapshotsToProject :: "faults \<Rightarrow> repo \<Rightarrow> (error + unit) \<times> repo" where
  "syncSnapshotsToProject f s =
     (if failing f ''fs.remove''
      then (Inl (FsError ''fs.remove''),
            s\<lparr>project := partly f (clean_files (project s)) (project s)\<rparr>)
      else
        (let s1 = emit EvCleanProject (s\<lparr>project := clean_files (project s)\<rparr>)
         in if failing f ''fs.copy''
            then (Inl (FsError ''fs.copy''),
                  s1\<lparr>project := project s1 ++ partly f (snapshots s1) Map.empty\<rparr>)
            else (Inr (), emit EvCopyToProject (s1\<lparr>project := project s1 ++ snapshots s1\<rparr>))))"

section \<open>restore and cancelRestore\<close>

definition restore :: "faults \<Rightarrow> repo \<Rightarrow> string \<Rightarrow> (error + unit) \<times> repo" where
  "restore f s ident =
     (case safeGitOperation (expandOid s ident) ''expand commit ID'' of
        Inl e \<Rightarrow> (Inl (CheckpointNotFound ident), s)
      | Inr fullId \<Rightarrow>
          (case safeGitOperation (readCommit s fullId) ''read commit'' of
             Inl e \<Rightarrow> (Inl (CheckpointNotFound ident), s)
           | Inr c \<Rightarrow>
               (let (r, s1) = resolveRef s ''HEAD'' in
                case safeGitOperation r ''resolve current HEAD'' of
                  Inl e \<Rightarrow> (Inl e, s1)
                | Inr currentHead \<Rightarrow>
                    (let (r2, s2) = writeRef f ''save ORIG_HEAD'' s1 ''ORIG_HEAD'' currentHead in
                     case safeGitOperation r2 ''save ORIG_HEAD'' of
                       Inl e \<Rightarrow> (Inl e, s2)
                     | Inr u2 \<Rightarrow>
                         (let (r3, s3) = writeRef f ''reset HEAD to checkpoint'' s2 ''HEAD'' fullId in
                          case safeGitOperation r3 ''reset HEAD to checkpoint'' of
                            Inl e \<Rightarrow> (Inl e, s3)
                          | Inr u3 \<Rightarrow>
                              (let (r4, s4) =
                                     checkout f ''checkout snapshots from checkpoint'' s3 fullId in
                               case safeGitOperation r4 ''checkout snapshots from checkpoint'' of
                                 Inl e \<Rightarrow> (Inl e, s4)
                               | Inr u4 \<Rightarrow> syncSnapshotsToProject f s4))))))"

definition cancelRestore :: "faults \<Rightarrow> repo \<Rightarrow> (error + unit) \<times> repo" where
  "cancelRestore f s =
     (let (r, s1) = resolveRef s ''ORIG_HEAD'' in
      case safeGitOperation r ''resolve ORIG_HEAD'' of
        Inl e \<Rightarrow> (Inl NoRestoreToCancel, s1)
      | Inr origHead \<Rightarrow>
          (let (r2, s2) = writeRef f ''reset to ORIG_HEAD'' s1 ''HEAD'' origHead in
           case safeGitOperation r2 ''reset to ORIG_HEAD'' of
             Inl e \<Rightarrow> (Inl NoRestoreToCancel, s2)
           | Inr u2 \<Rightarrow>
               (let (r3, s3) = checkout f ''checkout snapshots from ORIG_HEAD'' s2 origHead in
                case safeGitOperation r3 ''checkout snapshots from ORIG_HEAD'' of
                  Inl e \<Rightarrow> (Inl NoRestoreToCancel, s3)
                | Inr u3 \<Rightarrow>
                    (case syncSnapshotsToProject f s3 of
                       (Inl e, s4) \<Rightarrow> (Inl NoRestoreToCancel, s4)
                     | (Inr u4, s4) \<Rightarrow> (Inr (), s4)))))"

section \<open>parseCommitMessage\<close>

text \<open>
  The regular expression \<^verbatim>\<open>/^Session: ([a-f0-9-]+) - (.+)$/\<close>, without flags: the
  first group is a run of characters of the class \<^verbatim>\<open>[a-f0-9-]\<close>, which holds no
  space, so the run is the longest one and the match is unique; the second group is the
  rest of the string when it is not empty and holds no line terminator (\<^verbatim>\<open>.\<close> matches
  none and \<^verbatim>\<open>$\<close> is the end of the string). The line terminators among 8-bit
  characters are line feed and carriage return.
\<close>

definition sid_char :: "char \<Rightarrow> bool" where
  "sid_char c = (c \<in> set ''abcdef0123456789-'')"

definition line_terminator :: "char \<Rightarrow> bool" where
  "line_terminator c = (c = CHR 0x0A \<or> c = CHR 0x0D)"

definition sessionMatch :: "string \<Rightarrow> (string \<times> string) option" where
  "sessionMatch msg =
     (if prefix ''Session: '' msg then
        (let rest = drop 9 msg;
             sid = takeWhile sid_char rest;
             after = dropWhile sid_char rest;
             text = drop 3 after
         in if sid \<noteq> [] \<and> prefix '' - '' after \<and> text \<noteq> [] \<and> \<not> list_ex line_terminator text
            then Some (sid, text) else None)
      else None)"

definition parseCommitMessage :: "env \<Rightarrow> string \<Rightarrow> oid \<Rightarrow> string \<Rightarrow> CheckpointData" where
  "parseCommitMessage e msg x projPath =
     (case sessionMatch msg of
        Some (sid, text) \<Rightarrow>
          \<lparr>cp_id = x, sessionId = sid, promptIndex = now e, message = text,
           timestamp = now e, projectPath = projPath\<rparr>
      | None \<Rightarrow>
          \<lparr>cp_id = x, sessionId = ''manual'', promptIndex = now e, message = msg,
           timestamp = now e, projectPath = projPath\<rparr>)"

text \<open>The shape \<^verbatim>\<open>Session: <sessionId> - <text>\<close> as the specification writes it.\<close>

definition session_form :: "string \<Rightarrow> string \<Rightarrow> string \<Rightarrow> bool" where
  "session_form msg sid text = (msg = ''Session: '' @ sid @ '' - '' @ text)"

section \<open>create\<close>

definition getPromptIndexFromTranscript :: "env \<Rightarrow> string option \<Rightarrow> nat" where
  "getPromptIndexFromTranscript e transcriptPath =
     (case transcriptPath of
        None \<Rightarrow> now e
      | Some tp \<Rightarrow>
          if tp = [] then now e
          else (case transcripts e tp of
                  Some roles \<Rightarrow> length (filter (\<lambda>role. role = ''user'') roles)
                | None \<Rightarrow> now e))"

text \<open>\<^verbatim>\<open>a || d\<close> on an optional string: the empty string is as absent as \<^verbatim>\<open>undefined\<close>.\<close>

definition or_string :: "string option \<Rightarrow> string \<Rightarrow> string" where
  "or_string a d = (case a of None \<Rightarrow> d | Some x \<Rightarrow> if x = [] then d else x)"

definition or_number :: "nat option \<Rightarrow> nat \<Rightarrow> nat" where
  "or_number a d = (case a of None \<Rightarrow> d | Some n \<Rightarrow> if n = 0 then d else n)"

definition create_ignorePatterns :: "string list" where
  "create_ignorePatterns =
     [''node_modules'', ''.git'', ''.ccheckpoint'', ''dist'', ''build'', ''.env*'', ''*.log'',
      ''.DS_Store'']"

definition basename :: "string \<Rightarrow> string" where
  "basename s = rev (takeWhile (\<lambda>c. c \<noteq> CHR ''/'') (rev s))"

text \<open>The filter of \<^verbatim>\<open>copyWithIgnore\<close> on a source of relative path \<open>rel\<close> and base
  name \<open>base\<close>; the copy asks it for the source directory itself, then for every
  directory on the way to a file and for the file.\<close>

definition copy_filter :: "string list \<Rightarrow> string \<Rightarrow> string \<Rightarrow> bool" where
  "copy_filter ignorePatterns rel base =
     (\<not> list_ex (\<lambda>pattern. includes_str rel pattern \<or> includes_str base pattern) ignorePatterns)"

definition copied :: "env \<Rightarrow> string list \<Rightarrow> path \<Rightarrow> bool" where
  "copied e ignorePatterns p =
     (copy_filter ignorePatterns [] (basename (cwd e)) \<and>
      list_all (\<lambda>q. copy_filter ignorePatterns (join_path q) (last q)) (tl (prefixes p)))"

definition copyWithIgnore :: "env \<Rightarrow> string list \<Rightarrow> files \<Rightarrow> files" where
  "copyWithIgnore e ignorePatterns src = (\<lambda>p. if copied e ignorePatterns p then src p else None)"

definition syncProjectToSnapshots :: "faults \<Rightarrow> env \<Rightarrow> repo \<Rightarrow> (error + unit) \<times> repo" where
  "syncProjectToSnapshots f e s =
     (if failing f ''fs.ensureDir'' then (Inl (FsError ''fs.ensureDir''), s)
      else if failing f ''fs.copy''
      then (Inl (FsError ''fs.copy''),
            s\<lparr>snapshots := snapshots s ++
                 partly f (copyWithIgnore e create_ignorePatterns (project s)) Map.empty\<rparr>)
      else (Inr (), emit EvSyncProjectToSnapshots
                      (s\<lparr>snapshots := snapshots s ++
                           copyWithIgnore e create_ignorePatterns (project s)\<rparr>)))"

fun oids_of :: "tnode \<Rightarrow> oid list" where
  "oids_of (TBlob h b) = [h]"
| "oids_of (TTree h cs) = h # concat (map (\<lambda>nc. oids_of (snd nc)) cs)"

text \<open>The library stores the message of a commit with its carriage returns removed, its
  leading and trailing line feeds removed and one line feed added at the end.\<close>

definition normalizeNewlines :: "string \<Rightarrow> string" where
  "normalizeNewlines str =
     (let a = filter (\<lambda>c. c \<noteq> CHR 0x0D) str;
          b = dropWhile (\<lambda>c. c = CHR 0x0A) a;
          c = rev (dropWhile (\<lambda>c. c = CHR 0x0A) (rev b))
      in c @ [CHR 0x0A])"

definition git_add :: "faults \<Rightarrow> string \<Rightarrow> repo \<Rightarrow> (git_error + unit) \<times> repo" where
  "git_add f name s = (if failing f name then (Inl InternalError, s) else (Inr (), emit EvAdd s))"

text \<open>\<^verbatim>\<open>git.commit\<close>: the tree of the staged snapshots directory and the commit on top of
  the commit \<^verbatim>\<open>HEAD\<close> resolves to are stored. The branch pointer the library moves is
  not kept by the model: \<^verbatim>\<open>create\<close> overwrites \<^verbatim>\<open>HEAD\<close> with the new id right after.\<close>

definition git_commit :: "faults \<Rightarrow> string \<Rightarrow> env \<Rightarrow> repo \<Rightarrow> string \<Rightarrow> (git_error + oid) \<times> repo" where
  "git_commit f name e s msg =
     (if failing f name then (Inl InternalError, s)
      else
        (let (toid, ents) = write_tree e (snapshots s);
             par = refs s ''HEAD'';
             ts = now e div 1000;
             stored = normalizeNewlines msg;
             sha = commit_sha e toid par stored ts;
             c = \<lparr>tree_oid = toid, entries = ents, parent = par, commit_message = stored,
                  committer_timestamp = ts\<rparr>
         in (Inr sha, emit (EvCommit sha)
                        (emit (EvResolveRef ''HEAD'')
                           (s\<lparr>commits := commits s @ [(sha, c)],
                              objects := objects s @ oids_of (TTree toid ents)\<rparr>)))))"

text \<open>The directory of the repository exists in every state of the model, so
  \<^verbatim>\<open>git.init\<close> is not called.\<close>

definition create ::
  "faults \<Rightarrow> env \<Rightarrow> repo \<Rightarrow> string \<Rightarrow> string option \<Rightarrow> nat option \<Rightarrow> (error + CheckpointData) \<times> repo" where
  "create f e s msg sessId promptIdx =
     (let hookSessionId = CCHECKPOINT_SESSION_ID e;
          transcriptPath = CCHECKPOINT_TRANSCRIPT_PATH e;
          finalSessionId = or_string hookSessionId (or_string sessId ''manual'');
          finalPromptIndex = or_number promptIdx (getPromptIndexFromTranscript e transcriptPath)
      in if failing f ''fs.ensureDir'' then (Inl (FsError ''fs.ensureDir''), s)
         else
           (case syncProjectToSnapshots f e s of
              (Inl err, s1) \<Rightarrow> (Inl err, s1)
            | (Inr u1, s1) \<Rightarrow>
                (let (r2, s2) = git_add f ''add files to staging'' s1 in
                 case safeGitOperation r2 ''add files to staging'' of
                   Inl err \<Rightarrow> (Inl err, s2)
                 | Inr u2 \<Rightarrow>
                     (let (r3, s3) = git_commit f ''create commit'' e s2 msg in
                      case safeGitOperation r3 ''create commit'' of
                        Inl err \<Rightarrow> (Inl err, s3)
                      | Inr sha \<Rightarrow>
                          (let (r4, s4) = writeRef f ''update HEAD reference'' s3 ''HEAD'' sha in
                           case safeGitOperation r4 ''update HEAD reference'' of
                             Inl err \<Rightarrow> (Inl err, s4)
                           | Inr u4 \<Rightarrow>
                               (Inr \<lparr>cp_id = sha, sessionId = finalSessionId,
                                     promptIndex = finalPromptIndex, message = msg,
                                     timestamp = now e, projectPath = cwd e\<rparr>, s4))))))"

section \<open>list\<close>

definition list :: "env \<Rightarrow> repo \<Rightarrow> ListOptions \<Rightarrow> CheckpointData list" where
  "list e s options =
     (case safeGitOperation (git_log s (or_number (limit options) 100)) ''read git history'' of
        Inl err \<Rightarrow> []
      | Inr cs \<Rightarrow>
          (let checkpoints =
                 map (\<lambda>oc. (parseCommitMessage e (commit_message (snd oc)) (fst oc) (cwd e))
                              \<lparr>timestamp := committer_timestamp (snd oc) * 1000\<rparr>) cs;
               sorted_cps = sort_key (\<lambda>cp. - int (timestamp cp)) checkpoints;
               filteredCheckpoints =
                 (case opt_sessionId options of
                    None \<Rightarrow> sorted_cps
                  | Some sp \<Rightarrow>
                      if sp = [] then sorted_cps
                      else filter (\<lambda>cp. startsWith (sessionId cp) sp) sorted_cps)
           in (case limit options of
                 None \<Rightarrow> filteredCheckpoints
               | Some n \<Rightarrow> if n = 0 then filteredCheckpoints else take n filteredCheckpoints)))"

section \<open>diff\<close>

fun node_oid :: "tnode \<Rightarrow> oid" where
  "node_oid (TBlob h b) = h"
| "node_oid (TTree h cs) = h"

text \<open>The callback \<^verbatim>\<open>diff\<close> hands to the walk: what it pushes for a file path and the
  entries of the two trees there.\<close>

definition diff_entry :: "string \<Rightarrow> tnode option \<Rightarrow> tnode option \<Rightarrow> (string \<times> string) list" where
  "diff_entry filepath A B =
     (if filepath = ''.'' then []
      else (case (A, B) of
              (Some a, None) \<Rightarrow> [(''deleted'', filepath)]
            | (None, Some b) \<Rightarrow> [(''added'', filepath)]
            | (Some a, Some b) \<Rightarrow>
                if node_oid a \<noteq> node_oid b then [(''modified'', filepath)] else []
            | (None, None) \<Rightarrow> []))"

text \<open>The tree a walker is given by \<^verbatim>\<open>git.TREE({ ref })\<close>: the id of a stored commit
  names that commit, any other string is read as a ref.\<close>

definition resolve_tree :: "repo \<Rightarrow> string \<Rightarrow> tnode option" where
  "resolve_tree s r =
     (let x = (if r \<in> fst ` set (commits s) then r
               else (case refs s r of Some v \<Rightarrow> v | None \<Rightarrow> r))
      in (case map_of (commits s) x of
            None \<Rightarrow> None
          | Some c \<Rightarrow> Some (TTree (tree_oid c) (entries c))))"

text \<open>
  \<^verbatim>\<open>git.walk({ fs, dir, trees })\<close>, called as \<^verbatim>\<open>diff\<close> calls it, without a \<^verbatim>\<open>map\<close>
  function: the library walks the two trees itself and resolves to the result of that
  walk, or throws when a tree does not resolve. The result is a plain value; it has no
  member \<^verbatim>\<open>walk\<close>, so the call \<^verbatim>\<open>(await walker).walk(callback)\<close> throws a
  \<^verbatim>\<open>TypeError\<close> and the callback is never run.
\<close>

datatype walk_result = WalkResult

datatype thrown = TypeError | Thrown git_error

definition git_walk :: "repo \<Rightarrow> string \<Rightarrow> string \<Rightarrow> git_error + walk_result" where
  "git_walk s a b =
     (case (resolve_tree s a, resolve_tree s b) of
        (Some A, Some B) \<Rightarrow> Inr WalkResult
      | _ \<Rightarrow> Inl NotFoundError)"

definition call_walk ::
  "walk_result \<Rightarrow> (string \<Rightarrow> tnode option \<Rightarrow> tnode option \<Rightarrow> (string \<times> string) list)
     \<Rightarrow> thrown + (string \<times> string) list" where
  "call_walk walker callback = Inl TypeError"

definition diff :: "repo \<Rightarrow> string \<Rightarrow> error + (string \<times> string) list" where
  "diff s ident =
     (case lookup_ref s ''HEAD'' of
        Inl e \<Rightarrow> Inl (GitError e)
      | Inr currentRef \<Rightarrow>
          (case (case git_walk s ident currentRef of
                   Inl e \<Rightarrow> Inl (Thrown e)
                 | Inr walker \<Rightarrow> call_walk walker diff_entry) of
             Inl err \<Rightarrow> Inr []
           | Inr changes \<Rightarrow> Inr changes))"

text \<open>The entry of a tree at a path below it.\<close>

fun children :: "tnode option \<Rightarrow> (string \<times> tnode) list" where
  "children (Some (TTree h cs)) = cs"
| "children _ = []"

fun entry_at :: "tnode option \<Rightarrow> path \<Rightarrow> tnode option" where
  "entry_at A [] = A"
| "entry_at A (n # ns) = entry_at (map_of (children A) n) ns"

section \<open>Example repositories\<close>

definition ex_env :: env where
  "ex_env =
     \<lparr>CCHECKPOINT_SESSION_ID = None, CCHECKPOINT_TRANSCRIPT_PATH = None, now = 7000,
      cwd = ''/home/u/p'', transcripts = Map.empty,
      write_tree = (\<lambda>f. (''e0'', [])), commit_sha = (\<lambda>t p m ts. ''c0ffee0001'')\<rparr>"

definition ex_k1 :: commit where
  "ex_k1 =
     \<lparr>tree_oid = ''a1'',
      entries = [(''snapshots'', TTree ''a2'' [(''a.txt'', TBlob ''b1'' ''1'')])],
      parent = None, commit_message = ''v1'' @ [CHR 0x0A], committer_timestamp = 10\<rparr>"

definition ex_k2 :: commit where
  "ex_k2 =
     \<lparr>tree_oid = ''a3'',
      entries = [(''snapshots'', TTree ''a4'' [(''a.txt'', TBlob ''b2'' ''2'')])],
      parent = Some ''3f2a9c1e01'', commit_message = ''v2'' @ [CHR 0x0A],
      committer_timestamp = 5\<rparr>"

definition ex_k3 :: commit where
  "ex_k3 =
     \<lparr>tree_oid = ''a5'',
      entries = [(''snapshots'',
                  TTree ''a6'' [(''a.txt'', TBlob ''b2'' ''2''), (''b.txt'', TBlob ''b3'' ''x'')])],
      parent = Some ''3f2a9c1e02'', commit_message = ''v3'' @ [CHR 0x0A],
      committer_timestamp = 5\<rparr>"

text \<open>Three checkpoints, the newest current; the file \<^verbatim>\<open>a.txt\<close> of the project has been
  edited since, and the project has a build output that \<^verbatim>\<open>create\<close> does not copy.\<close>

definition ex_repo :: repo where
  "ex_repo =
     \<lparr>refs = [''HEAD'' \<mapsto> ''7b00d4e5aa''],
      commits = [(''3f2a9c1e01'', ex_k1), (''3f2a9c1e02'', ex_k2), (''7b00d4e5aa'', ex_k3)],
      objects = [''a1'', ''a2'', ''b1'', ''a3'', ''a4'', ''b2'', ''a5'', ''a6'', ''b3''],
      snapshots = [[''a.txt''] \<mapsto> ''2'', [''b.txt''] \<mapsto> ''x''],
      project = [[''a.txt''] \<mapsto> ''3'', [''b.txt''] \<mapsto> ''x'', [''dist'', ''out.js''] \<mapsto> ''o''],
      trace = []\<rparr>"

text \<open>A checkout that throws after writing \<^verbatim>\<open>a.txt\<close>, with every other write
  succeeding.\<close>

definition checkout_fault :: faults where
  "checkout_fault =
     \<lparr>failing = (\<lambda>name. name = ''checkout snapshots from checkpoint''),
      reached = (\<lambda>p. p = [''a.txt''])\<rparr>"

definition no_options :: ListOptions where
  "no_options = \<lparr>opt_sessionId = None, limit = None\<rparr>"

text \<open>A history of \<open>n\<close> checkpoints in a line, the newest current.\<close>

definition chain_oid :: "nat \<Rightarrow> oid" where
  "chain_oid i = [''0123456789abcdef'' ! (i div 16), ''0123456789abcdef'' ! (i mod 16)]"

definition chain_commit :: "nat \<Rightarrow> commit" where
  "chain_commit i =
     \<lparr>tree_oid = ''e0'', entries = [],
      parent = (if i = 0 then None else Some (chain_oid (i - 1))),
      commit_message = ''m'' @ [CHR 0x0A], committer_timestamp = i\<rparr>"

definition chain_repo :: "nat \<Rightarrow> repo" where
  "chain_repo n =
     \<lparr>refs = [''HEAD'' \<mapsto> chain_oid (n - 1)],
      commits = map (\<lambda>i. (chain_oid i, chain_commit i)) (rev [0..<n]),
      objects = [''e0''], snapshots = Map.empty, project = Map.empty, trace = []\<rparr>"

section \<open>The order of the writes of restore\<close>

lemmas op_defs = restore_def cancelRestore_def safeGitOperation_def resolveRef_def
  checkout_def writeRef_def emit_def syncSnapshotsToProject_def lookup_ref_def readCommit_def

lemmas scan_defs = expandOid_def oid_matches_def known_oids_def startsWith_def

lemma restore_success:
  "fst (restore f s ident) = Inr () \<Longrightarrow>
   \<exists>cur tgt c. refs s ''HEAD'' = Some cur \<and> expandOid s ident = Inr tgt \<and>
     map_of (commits s) tgt = Some c \<and>
     refs (snd (restore f s ident)) = (refs s)(''ORIG_HEAD'' \<mapsto> cur, ''HEAD'' \<mapsto> tgt) \<and>
     commits (snd (restore f s ident)) = commits s \<and>
     snapshots (snd (restore f s ident)) = snapshot_files c \<and>
     project (snd (restore f s ident)) = clean_files (project s) ++ snapshot_files c \<and>
     trace (snd (restore f s ident)) =
       trace s @ [EvResolveRef ''HEAD'', EvWriteRef ''ORIG_HEAD'' cur,
                  EvWriteRef ''HEAD'' tgt, EvCheckout tgt, EvCleanProject, EvCopyToProject]"
  by (auto simp: op_defs Let_def split: sum.splits option.splits if_splits prod.splits)

lemma restore_orig_first:
  "refs (snd (restore f s ident)) ''HEAD'' \<noteq> refs s ''HEAD'' \<or>
   snapshots (snd (restore f s ident)) \<noteq> snapshots s \<or>
   project (snd (restore f s ident)) \<noteq> project s \<Longrightarrow>
   refs s ''HEAD'' \<noteq> None \<and> refs (snd (restore f s ident)) ''ORIG_HEAD'' = refs s ''HEAD''"
  by (auto simp: op_defs Let_def split: sum.splits option.splits if_splits prod.splits)

lemma restore_head_before_tree:
  "snapshots (snd (restore f s ident)) \<noteq> snapshots s \<or>
   project (snd (restore f s ident)) \<noteq> project s \<Longrightarrow>
   \<exists>tgt. expandOid s ident = Inr tgt \<and> refs (snd (restore f s ident)) ''HEAD'' = Some tgt"
  by (auto simp: op_defs Let_def split: sum.splits option.splits if_splits prod.splits)

lemma restore_trace_prefix:
  "prefix (trace s) (trace (snd (restore f s ident))) \<and>
   (\<exists>cur tgt. prefix (trace (snd (restore f s ident)))
      (trace s @ [EvResolveRef ''HEAD'', EvWriteRef ''ORIG_HEAD'' cur,
                  EvWriteRef ''HEAD'' tgt, EvCheckout tgt, EvCleanProject, EvCopyToProject]))"
  by (auto simp: op_defs Let_def split: sum.splits option.splits if_splits prod.splits)


text \<open>
  C1. Whatever write fails or not, restore proceeds in this order: it writes the value
  of \<^verbatim>\<open>HEAD\<close> to \<^verbatim>\<open>ORIG_HEAD\<close>, then moves \<^verbatim>\<open>HEAD\<close> to the resolved target, then
  changes the snapshots directory and then the project directory. A restore that
  succeeds has done all of it: \<^verbatim>\<open>ORIG_HEAD\<close> holds the former value of \<^verbatim>\<open>HEAD\<close>,
  \<^verbatim>\<open>HEAD\<close> the target, and both directories the files of the target. In every outcome,
  a restore that throws on the way included: when \<^verbatim>\<open>HEAD\<close> has moved or a directory has
  changed, \<^verbatim>\<open>ORIG_HEAD\<close> holds the former value of \<^verbatim>\<open>HEAD\<close>; when a directory has
  changed, \<^verbatim>\<open>HEAD\<close> is at the target; and the steps completed are an initial part of
  the sequence read \<^verbatim>\<open>HEAD\<close>, write \<^verbatim>\<open>ORIG_HEAD\<close>, write \<^verbatim>\<open>HEAD\<close>, check out, clean,
  copy.
\<close>

theorem restore_order:
  "(fst (restore f s ident) = Inr () \<longrightarrow>
      (\<exists>cur tgt c. refs s ''HEAD'' = Some cur \<and> expandOid s ident = Inr tgt \<and>
         map_of (commits s) tgt = Some c \<and>
         refs (snd (restore f s ident)) = (refs s)(''ORIG_HEAD'' \<mapsto> cur, ''HEAD'' \<mapsto> tgt) \<and>
         snapshots (snd (restore f s ident)) = snapshot_files c \<and>
         project (snd (restore f s ident)) = clean_files (project s) ++ snapshot_files c \<and>
         trace (snd (restore f s ident)) =
           trace s @ [EvResolveRef ''HEAD'', EvWriteRef ''ORIG_HEAD'' cur,
                      EvWriteRef ''HEAD'' tgt, EvCheckout tgt, EvCleanProject,
                      EvCopyToProject])) \<and>
   (refs (snd (restore f s ident)) ''HEAD'' \<noteq> refs s ''HEAD'' \<or>
    snapshots (snd (restore f s ident)) \<noteq> snapshots s \<or>
    project (snd (restore f s ident)) \<noteq> project s \<longrightarrow>
      refs s ''HEAD'' \<noteq> None \<and>
      refs (snd (restore f s ident)) ''ORIG_HEAD'' = refs s ''HEAD'') \<and>
   (snapshots (snd (restore f s ident)) \<noteq> snapshots s \<or>
    project (snd (restore f s ident)) \<noteq> project s \<longrightarrow>
      (\<exists>tgt. expandOid s ident = Inr tgt \<and>
             refs (snd (restore f s ident)) ''HEAD'' = Some tgt)) \<and>
   prefix (trace s) (trace (snd (restore f s ident))) \<and>
   (\<exists>cur tgt. prefix (trace (snd (restore f s ident)))
      (trace s @ [EvResolveRef ''HEAD'', EvWriteRef ''ORIG_HEAD'' cur,
                  EvWriteRef ''HEAD'' tgt, EvCheckout tgt, EvCleanProject, EvCopyToProject]))"
proof (intro conjI impI)
  assume "fst (restore f s ident) = Inr ()"
  from restore_success [OF this]
  show "\<exists>cur tgt c. refs s ''HEAD'' = Some cur \<and> expandOid s ident = Inr tgt \<and>
         map_of (commits s) tgt = Some c \<and>
         refs (snd (restore f s ident)) = (refs s)(''ORIG_HEAD'' \<mapsto> cur, ''HEAD'' \<mapsto> tgt) \<and>
         snapshots (snd (restore f s ident)) = snapshot_files c \<and>
         project (snd (restore f s ident)) = clean_files (project s) ++ snapshot_files c \<and>
         trace (snd (restore f s ident)) =
           trace s @ [EvResolveRef ''HEAD'', EvWriteRef ''ORIG_HEAD'' cur,
                      EvWriteRef ''HEAD'' tgt, EvCheckout tgt, EvCleanProject,
                      EvCopyToProject]"
    by blast
next
  assume a: "refs (snd (restore f s ident)) ''HEAD'' \<noteq> refs s ''HEAD'' \<or>
    snapshots (snd (restore f s ident)) \<noteq> snapshots s \<or>
    project (snd (restore f s ident)) \<noteq> project s"
  from restore_orig_first [OF a]
  show "refs s ''HEAD'' \<noteq> None"
    and "refs (snd (restore f s ident)) ''ORIG_HEAD'' = refs s ''HEAD''"
    by simp_all
next
  assume a: "snapshots (snd (restore f s ident)) \<noteq> snapshots s \<or>
    project (snd (restore f s ident)) \<noteq> project s"
  from restore_head_before_tree [OF a]
  show "\<exists>tgt. expandOid s ident = Inr tgt \<and>
             refs (snd (restore f s ident)) ''HEAD'' = Some tgt" .
next
  from restore_trace_prefix [of s f ident]
  show "prefix (trace s) (trace (snd (restore f s ident)))"
    and "\<exists>cur tgt. prefix (trace (snd (restore f s ident)))
      (trace s @ [EvResolveRef ''HEAD'', EvWriteRef ''ORIG_HEAD'' cur,
                  EvWriteRef ''HEAD'' tgt, EvCheckout tgt, EvCleanProject, EvCopyToProject])"
    by simp_all
qed

lemma ex_expand: "expandOid ex_repo ''3f2a9c1e01'' = Inr ''3f2a9c1e01''"
  by (simp add: scan_defs ex_repo_def)

lemma ex_restore_ok: "fst (restore no_faults ex_repo ''3f2a9c1e01'') = Inr ()"
  by (simp add: op_defs scan_defs Let_def no_faults_def ex_repo_def)

lemma ex_restore_torn:
  "fst (restore checkout_fault ex_repo ''3f2a9c1e01'') =
     Inl (GitOperationFailed ''checkout snapshots from checkpoint'' InternalError)"
  "snapshots (snd (restore checkout_fault ex_repo ''3f2a9c1e01'')) [''a.txt''] = Some ''1''"
  by (simp_all add: op_defs scan_defs Let_def checkout_fault_def partly_def ex_repo_def
      ex_k1_def snapshot_files_def)

theorem restore_order_witness:
  "fst (restore no_faults ex_repo ''3f2a9c1e01'') = Inr () \<and>
   refs (snd (restore no_faults ex_repo ''3f2a9c1e01'')) ''ORIG_HEAD'' = Some ''7b00d4e5aa'' \<and>
   refs (snd (restore no_faults ex_repo ''3f2a9c1e01'')) ''HEAD'' = Some ''3f2a9c1e01'' \<and>
   fst (restore checkout_fault ex_repo ''3f2a9c1e01'') =
     Inl (GitOperationFailed ''checkout snapshots from checkpoint'' InternalError) \<and>
   snapshots (snd (restore checkout_fault ex_repo ''3f2a9c1e01'')) [''a.txt''] = Some ''1'' \<and>
   snapshots ex_repo [''a.txt''] = Some ''2'' \<and>
   refs (snd (restore checkout_fault ex_repo ''3f2a9c1e01'')) ''ORIG_HEAD'' = Some ''7b00d4e5aa'' \<and>
   refs (snd (restore checkout_fault ex_repo ''3f2a9c1e01'')) ''HEAD'' = Some ''3f2a9c1e01''"
proof -
  have h: "refs ex_repo ''HEAD'' = Some ''7b00d4e5aa''"
    by (simp add: ex_repo_def)
  have o: "snapshots ex_repo [''a.txt''] = Some ''2''"
    by (simp add: ex_repo_def)
  have d: "snapshots (snd (restore checkout_fault ex_repo ''3f2a9c1e01'')) \<noteq> snapshots ex_repo"
  proof
    assume "snapshots (snd (restore checkout_fault ex_repo ''3f2a9c1e01'')) = snapshots ex_repo"
    with ex_restore_torn(2) o show False
      by simp
  qed
  note ok = restore_order [of no_faults ex_repo "''3f2a9c1e01''"]
  note torn = restore_order [of checkout_fault ex_repo "''3f2a9c1e01''"]
  from ok [THEN conjunct1] ex_restore_ok obtain cur tgt where
    ct: "refs ex_repo ''HEAD'' = Some cur" "expandOid ex_repo ''3f2a9c1e01'' = Inr tgt"
      "refs (snd (restore no_faults ex_repo ''3f2a9c1e01''))
         = (refs ex_repo)(''ORIG_HEAD'' \<mapsto> cur, ''HEAD'' \<mapsto> tgt)"
    by blast
  from ct(1) h have "cur = ''7b00d4e5aa''"
    by simp
  moreover from ct(2) ex_expand have "tgt = ''3f2a9c1e01''"
    by simp
  ultimately have 1:
    "refs (snd (restore no_faults ex_repo ''3f2a9c1e01'')) ''ORIG_HEAD'' = Some ''7b00d4e5aa''"
    "refs (snd (restore no_faults ex_repo ''3f2a9c1e01'')) ''HEAD'' = Some ''3f2a9c1e01''"
    using ct(3) by simp_all
  from torn [THEN conjunct2, THEN conjunct1] d h
  have 2: "refs (snd (restore checkout_fault ex_repo ''3f2a9c1e01'')) ''ORIG_HEAD''
             = Some ''7b00d4e5aa''"
    by simp
  from torn [THEN conjunct2, THEN conjunct2, THEN conjunct1] d obtain tgt' where
    "expandOid ex_repo ''3f2a9c1e01'' = Inr tgt'"
    "refs (snd (restore checkout_fault ex_repo ''3f2a9c1e01'')) ''HEAD'' = Some tgt'"
    by blast
  with ex_expand
  have 3: "refs (snd (restore checkout_fault ex_repo ''3f2a9c1e01'')) ''HEAD'' = Some ''3f2a9c1e01''"
    by simp
  from ex_restore_ok ex_restore_torn o 1 2 3 show ?thesis
    by simp
qed

section \<open>cancelRestore and the undo slot\<close>

lemma cancel_ok_iff:
  "fst (cancelRestore f s) = Inr () \<longleftrightarrow>
     (\<exists>h c. refs s ''ORIG_HEAD'' = Some h \<and> map_of (commits s) h = Some c) \<and>
     \<not> failing f ''reset to ORIG_HEAD'' \<and> \<not> failing f ''checkout snapshots from ORIG_HEAD'' \<and>
     \<not> failing f ''fs.remove'' \<and> \<not> failing f ''fs.copy''"
  by (auto simp: op_defs Let_def split: sum.splits option.splits if_splits prod.splits)

lemma cancel_state:
  "fst (cancelRestore f s) = Inr () \<Longrightarrow>
   refs s ''ORIG_HEAD'' = Some h \<Longrightarrow> map_of (commits s) h = Some c \<Longrightarrow>
   refs (snd (cancelRestore f s)) = (refs s)(''HEAD'' \<mapsto> h) \<and>
   commits (snd (cancelRestore f s)) = commits s \<and>
   snapshots (snd (cancelRestore f s)) = snapshot_files c \<and>
   project (snd (cancelRestore f s)) = clean_files (project s) ++ snapshot_files c"
  by (auto simp: op_defs Let_def split: sum.splits option.splits if_splits prod.splits)

lemma clean_twice: "clean_files (clean_files g ++ h) ++ h = clean_files g ++ h"
  by (rule ext) (auto simp: map_add_def clean_files_def split: option.splits)

lemma clean_add_outside: "\<not> kept_path p \<Longrightarrow> (clean_files g ++ h) p = h p"
  by (auto simp: map_add_def clean_files_def split: option.splits)

lemma ex_restore_refs:
  "refs (snd (restore no_faults ex_repo ''3f2a9c1e01'')) ''ORIG_HEAD'' = Some ''7b00d4e5aa''"
  "commits (snd (restore no_faults ex_repo ''3f2a9c1e01'')) = commits ex_repo"
  using restore_success [OF ex_restore_ok] by (auto simp: ex_expand) (simp add: ex_repo_def)

lemma ex_cancel_ok:
  "fst (cancelRestore no_faults (snd (restore no_faults ex_repo ''3f2a9c1e01''))) = Inr ()"
  by (simp add: cancel_ok_iff ex_restore_refs) (simp add: ex_repo_def no_faults_def)

text \<open>
  C2, as the specification states it: after a restore and one cancelRestore that both
  succeed, a second cancelRestore fails. In the example repository it succeeds:
  cancelRestore reads \<^verbatim>\<open>ORIG_HEAD\<close> and never removes it.
\<close>

theorem cancelRestore_twice_counterexample:
  "fst (restore no_faults ex_repo ''3f2a9c1e01'') = Inr () \<and>
   fst (cancelRestore no_faults (snd (restore no_faults ex_repo ''3f2a9c1e01''))) = Inr () \<and>
   fst (cancelRestore no_faults (snd (cancelRestore no_faults
          (snd (restore no_faults ex_repo ''3f2a9c1e01''))))) = Inr ()"
  by (simp add: op_defs scan_defs ex_repo_def Let_def no_faults_def)

text \<open>
  C2, amended. cancelRestore fails with the error for no restore to cancel when
  \<^verbatim>\<open>ORIG_HEAD\<close> is absent, and then changes no ref and no directory. It never clears
  \<^verbatim>\<open>ORIG_HEAD\<close>: after a restore and a cancelRestore that both succeed, a second
  cancelRestore succeeds as well and leaves the refs, the snapshots directory and the
  project directory as the first one left them.
\<close>

theorem cancelRestore_repeatable:
  "(refs s ''ORIG_HEAD'' = None \<longrightarrow>
      fst (cancelRestore f s) = Inl NoRestoreToCancel \<and>
      refs (snd (cancelRestore f s)) = refs s \<and>
      snapshots (snd (cancelRestore f s)) = snapshots s \<and>
      project (snd (cancelRestore f s)) = project s) \<and>
   (fst (restore f s x) = Inr () \<and> fst (cancelRestore f (snd (restore f s x))) = Inr () \<longrightarrow>
      fst (cancelRestore f (snd (cancelRestore f (snd (restore f s x))))) = Inr () \<and>
      refs (snd (cancelRestore f (snd (cancelRestore f (snd (restore f s x))))))
        = refs (snd (cancelRestore f (snd (restore f s x)))) \<and>
      snapshots (snd (cancelRestore f (snd (cancelRestore f (snd (restore f s x))))))
        = snapshots (snd (cancelRestore f (snd (restore f s x)))) \<and>
      project (snd (cancelRestore f (snd (cancelRestore f (snd (restore f s x))))))
        = project (snd (cancelRestore f (snd (restore f s x)))))"
proof (intro conjI impI)
  assume "refs s ''ORIG_HEAD'' = None"
  then show "fst (cancelRestore f s) = Inl NoRestoreToCancel"
    "refs (snd (cancelRestore f s)) = refs s"
    "snapshots (snd (cancelRestore f s)) = snapshots s"
    "project (snd (cancelRestore f s)) = project s"
    by (simp_all add: op_defs Let_def)
next
  define s1 where "s1 = snd (restore f s x)"
  define s2 where "s2 = snd (cancelRestore f s1)"
  assume a: "fst (restore f s x) = Inr () \<and> fst (cancelRestore f (snd (restore f s x))) = Inr ()"
  then have ok1: "fst (cancelRestore f s1) = Inr ()"
    by (simp add: s1_def)
  then obtain h c where h: "refs s1 ''ORIG_HEAD'' = Some h" "map_of (commits s1) h = Some c"
    by (auto simp: cancel_ok_iff)
  note st2 = cancel_state [OF ok1 h, folded s2_def]
  from st2 h have h2: "refs s2 ''ORIG_HEAD'' = Some h" "map_of (commits s2) h = Some c"
    by simp_all
  from h2 ok1 have ok2: "fst (cancelRestore f s2) = Inr ()"
    by (auto simp: cancel_ok_iff)
  note st3 = cancel_state [OF ok2 h2]
  from ok2 show "fst (cancelRestore f (snd (cancelRestore f (snd (restore f s x))))) = Inr ()"
    unfolding s1_def [symmetric] s2_def [symmetric] .
  from st2 st3 show "refs (snd (cancelRestore f (snd (cancelRestore f (snd (restore f s x))))))
        = refs (snd (cancelRestore f (snd (restore f s x))))"
    unfolding s1_def [symmetric] s2_def [symmetric] by simp
  from st2 st3 show "snapshots (snd (cancelRestore f (snd (cancelRestore f (snd (restore f s x))))))
        = snapshots (snd (cancelRestore f (snd (restore f s x))))"
    unfolding s1_def [symmetric] s2_def [symmetric] by simp
  from st2 st3 show "project (snd (cancelRestore f (snd (cancelRestore f (snd (restore f s x))))))
        = project (snd (cancelRestore f (snd (restore f s x))))"
    unfolding s1_def [symmetric] s2_def [symmetric] by (simp add: clean_twice)
qed

theorem cancelRestore_repeatable_witness:
  "refs (chain_repo 1) ''ORIG_HEAD'' = None \<and>
   fst (cancelRestore no_faults (chain_repo 1)) = Inl NoRestoreToCancel \<and>
   fst (restore no_faults ex_repo ''3f2a9c1e01'') = Inr () \<and>
   fst (cancelRestore no_faults (snd (restore no_faults ex_repo ''3f2a9c1e01''))) = Inr () \<and>
   refs (snd (cancelRestore no_faults (snd (cancelRestore no_faults
          (snd (restore no_faults ex_repo ''3f2a9c1e01''))))))
     = refs (snd (cancelRestore no_faults (snd (restore no_faults ex_repo ''3f2a9c1e01''))))"
proof -
  have n: "refs (chain_repo 1) ''ORIG_HEAD'' = None"
    by (simp add: chain_repo_def)
  from cancelRestore_repeatable [where s = "chain_repo 1" and f = no_faults]
    cancelRestore_repeatable [where s = ex_repo and f = no_faults and x = "''3f2a9c1e01''"]
    n ex_restore_ok ex_cancel_ok
  show ?thesis by blast
qed

section \<open>restore followed by cancelRestore\<close>

lemma not_kept_a: "\<not> kept_path [''a.txt'']"
  by (simp add: kept_path_def kept_item_def sync_ignorePatterns_def)

lemma not_kept_dist: "\<not> kept_path [''dist'', ''out.js'']"
  by (simp add: kept_path_def kept_item_def sync_ignorePatterns_def)

lemma ex_k3_files: "snapshot_files ex_k3 = [[''a.txt''] \<mapsto> ''2'', [''b.txt''] \<mapsto> ''x'']"
  by (rule ext) (simp add: ex_k3_def snapshot_files_def)

text \<open>
  C3. The claim fails on the code. In the example repository the file \<^verbatim>\<open>a.txt\<close> was
  edited after the current checkpoint was taken, and \<^verbatim>\<open>dist/out.js\<close> is a file that
  \<^verbatim>\<open>create\<close> never copies; neither path is one that \<^verbatim>\<open>syncSnapshotsToProject\<close> leaves in
  place. A restore followed at once by cancelRestore, both succeeding, leaves
  \<^verbatim>\<open>a.txt\<close> with the bytes of the current checkpoint, not with the edit, and leaves no
  \<^verbatim>\<open>dist/out.js\<close>.
\<close>

theorem restore_cancel_loses_edit:
  "\<not> kept_path [''a.txt''] \<and> \<not> kept_path [''dist'', ''out.js''] \<and>
   project ex_repo [''a.txt''] = Some ''3'' \<and>
   project ex_repo [''dist'', ''out.js''] = Some ''o'' \<and>
   fst (restore no_faults ex_repo ''3f2a9c1e01'') = Inr () \<and>
   fst (cancelRestore no_faults (snd (restore no_faults ex_repo ''3f2a9c1e01''))) = Inr () \<and>
   project (snd (cancelRestore no_faults (snd (restore no_faults ex_repo ''3f2a9c1e01''))))
     [''a.txt''] = Some ''2'' \<and>
   project (snd (cancelRestore no_faults (snd (restore no_faults ex_repo ''3f2a9c1e01''))))
     [''dist'', ''out.js''] = None"
proof -
  have p: "project ex_repo [''a.txt''] = Some ''3''"
    "project ex_repo [''dist'', ''out.js''] = Some ''o''"
    by (simp_all add: ex_repo_def)
  have o: "refs (snd (restore no_faults ex_repo ''3f2a9c1e01'')) ''ORIG_HEAD'' = Some ''7b00d4e5aa''"
    by (rule ex_restore_refs)
  have k: "map_of (commits (snd (restore no_faults ex_repo ''3f2a9c1e01''))) ''7b00d4e5aa''
             = Some ex_k3"
    by (simp add: ex_restore_refs) (simp add: ex_repo_def)
  from cancel_state [OF ex_cancel_ok o k]
  have "project (snd (cancelRestore no_faults (snd (restore no_faults ex_repo ''3f2a9c1e01''))))
          = clean_files (project (snd (restore no_faults ex_repo ''3f2a9c1e01''))) ++
            snapshot_files ex_k3"
    by simp
  then have q:
    "project (snd (cancelRestore no_faults (snd (restore no_faults ex_repo ''3f2a9c1e01'')))) q
       = snapshot_files ex_k3 q" if "\<not> kept_path q" for q
    using that by (simp add: clean_add_outside)
  from q [OF not_kept_a] q [OF not_kept_dist] have
    "project (snd (cancelRestore no_faults (snd (restore no_faults ex_repo ''3f2a9c1e01''))))
       [''a.txt''] = Some ''2''"
    "project (snd (cancelRestore no_faults (snd (restore no_faults ex_repo ''3f2a9c1e01''))))
       [''dist'', ''out.js''] = None"
    by (simp_all add: ex_k3_files)
  with p not_kept_a not_kept_dist ex_restore_ok ex_cancel_ok show ?thesis
    by simp
qed

section \<open>Resolving a short id\<close>

lemma matches_set:
  "set (oid_matches s p) = {x \<in> set (known_oids s). take 2 x = take 2 p \<and> prefix p x}"
  unfolding oid_matches_def startsWith_def by (simp only: set_remdups set_filter)

lemma bucket_of_prefix:
  assumes "2 \<le> length p" and "prefix p x"
  shows "take 2 x = take 2 p"
proof -
  from assms(2) obtain zs where "x = p @ zs"
    by (auto simp: prefix_def)
  with assms(1) show ?thesis
    by simp
qed

lemma matches_set_long:
  assumes "2 \<le> length p"
  shows "set (oid_matches s p) = {x \<in> set (known_oids s). prefix p x}"
proof -
  have "(take 2 x = take 2 p \<and> prefix p x) = prefix p x" for x
    using bucket_of_prefix [OF assms, of x] by blast
  then show ?thesis
    by (simp only: matches_set)
qed

lemma matches_short:
  assumes "length p < 2" and "\<forall>x \<in> set (known_oids s). 2 \<le> length x"
  shows "oid_matches s p = []"
proof -
  have "take 2 x \<noteq> take 2 p" if "x \<in> set (known_oids s)" for x
  proof
    assume e: "take 2 x = take 2 p"
    from assms(2) that have "2 \<le> length x"
      by blast
    then have "length (take 2 x) = 2"
      by simp
    moreover from assms(1) have "length (take 2 p) < 2"
      by simp
    ultimately show False
      using e by simp
  qed
  then have "{x \<in> set (known_oids s). take 2 x = take 2 p \<and> prefix p x} = {}"
    by blast
  then have "set (oid_matches s p) = {}"
    by (simp only: matches_set)
  then show ?thesis
    by simp
qed

lemma matches_distinct: "distinct (oid_matches s p)"
  by (simp add: oid_matches_def)

lemma distinct_singleton: "distinct xs \<Longrightarrow> set xs = {t} \<Longrightarrow> xs = [t]"
proof (cases xs)
  case Nil
  assume "set xs = {t}"
  with Nil show ?thesis by simp
next
  case (Cons a as)
  assume d: "distinct xs" and s: "set xs = {t}"
  from s Cons have "a = t" by auto
  moreover have "as = []"
  proof (cases as)
    case Nil
    then show ?thesis .
  next
    case (Cons b bs)
    with s \<open>xs = a # as\<close> have "b = t" by auto
    with d \<open>xs = a # as\<close> Cons \<open>a = t\<close> show ?thesis by simp
  qed
  ultimately show ?thesis using Cons by simp
qed

lemma expandOid_none:
  assumes "2 \<le> length p" and "{x \<in> set (known_oids s). prefix p x} = {}"
  shows "expandOid s p = Inl NotFoundError"
proof -
  from assms have "set (oid_matches s p) = {}"
    by (simp only: matches_set_long)
  then have "oid_matches s p = []"
    by simp
  then show ?thesis
    by (simp add: expandOid_def)
qed

lemma expandOid_one:
  assumes "2 \<le> length p" and "{x \<in> set (known_oids s). prefix p x} = {t}"
  shows "expandOid s p = Inr t"
proof -
  from assms have "set (oid_matches s p) = {t}"
    by (simp only: matches_set_long)
  with matches_distinct [of s p] have "oid_matches s p = [t]"
    by (rule distinct_singleton)
  then show ?thesis
    by (simp add: expandOid_def)
qed

lemma expandOid_many:
  assumes "2 \<le> length p"
    and "a \<in> set (known_oids s)" "b \<in> set (known_oids s)" "a \<noteq> b" "prefix p a" "prefix p b"
  shows "expandOid s p = Inl AmbiguousError"
proof -
  from assms have ab: "a \<in> set (oid_matches s p)" "b \<in> set (oid_matches s p)"
    by (simp_all add: matches_set_long)
  show ?thesis
  proof (cases "oid_matches s p")
    case Nil
    with ab show ?thesis by simp
  next
    case outer: (Cons y ys)
    show ?thesis
    proof (cases ys)
      case Nil
      with outer ab assms(4) show ?thesis by simp
    next
      case (Cons z zs)
      with outer show ?thesis by (simp add: expandOid_def)
    qed
  qed
qed

lemma restore_not_found:
  "expandOid s p = Inl e \<Longrightarrow> restore f s p = (Inl (CheckpointNotFound p), s)"
  by (simp add: restore_def safeGitOperation_def)

text \<open>
  C4, as the specification states it: a prefix that two stored commits share makes
  restore fail with an error of its own, Ambiguous, and never with the error for a
  checkpoint that is not found. In the example repository the library reports the
  ambiguity, and restore replaces that report by the error for a checkpoint that is not
  found.
\<close>

theorem restore_ambiguous_counterexample:
  "prefix ''3f2a9c1e'' ''3f2a9c1e01'' \<and> prefix ''3f2a9c1e'' ''3f2a9c1e02'' \<and>
   map_of (commits ex_repo) ''3f2a9c1e01'' = Some ex_k1 \<and>
   map_of (commits ex_repo) ''3f2a9c1e02'' = Some ex_k2 \<and>
   expandOid ex_repo ''3f2a9c1e'' = Inl AmbiguousError \<and>
   fst (restore no_faults ex_repo ''3f2a9c1e'') = Inl (CheckpointNotFound ''3f2a9c1e'')"
  by (simp add: restore_def safeGitOperation_def scan_defs ex_repo_def)

text \<open>
  C4, amended. The ids scanned are those of all stored objects, and the library looks
  only among the ids that share the first two characters of the given string. A string
  of fewer than two characters never resolves (stored ids being longer). For a string
  of two characters or more: when no stored id starts with it, when two or more
  different stored ids do, or when the only one that does is not the id of a commit,
  restore fails with the one error it has for this, that the checkpoint is not found,
  and changes nothing, whatever else fails; it never picks one of several matches. When
  exactly one stored id starts with it and it is the id of a commit, the string
  resolves to that commit: restore does not report it as not found, and unless one of
  its two ref writes fails (or \<^verbatim>\<open>HEAD\<close> is absent) it moves \<^verbatim>\<open>HEAD\<close> to that commit.
\<close>

theorem restore_resolves_prefix:
  "(length p < 2 \<and> (\<forall>x \<in> set (known_oids s). 2 \<le> length x) \<longrightarrow>
      restore f s p = (Inl (CheckpointNotFound p), s)) \<and>
   (2 \<le> length p \<and> {x \<in> set (known_oids s). prefix p x} = {} \<longrightarrow>
      restore f s p = (Inl (CheckpointNotFound p), s)) \<and>
   (2 \<le> length p \<and> {x \<in> set (known_oids s). prefix p x} = {t} \<and>
    map_of (commits s) t = None \<longrightarrow>
      restore f s p = (Inl (CheckpointNotFound p), s)) \<and>
   (2 \<le> length p \<and> {x \<in> set (known_oids s). prefix p x} = {t} \<and>
    map_of (commits s) t \<noteq> None \<longrightarrow>
      expandOid s p = Inr t \<and>
      fst (restore f s p) \<noteq> Inl (CheckpointNotFound p) \<and>
      (refs s ''HEAD'' \<noteq> None \<and> \<not> failing f ''save ORIG_HEAD'' \<and>
       \<not> failing f ''reset HEAD to checkpoint'' \<longrightarrow>
         refs (snd (restore f s p)) ''HEAD'' = Some t)) \<and>
   (2 \<le> length p \<and> a \<in> set (known_oids s) \<and> b \<in> set (known_oids s) \<and> a \<noteq> b \<and>
    prefix p a \<and> prefix p b \<longrightarrow>
      restore f s p = (Inl (CheckpointNotFound p), s))"
proof (intro conjI impI)
  assume "length p < 2 \<and> (\<forall>x \<in> set (known_oids s). 2 \<le> length x)"
  then have "oid_matches s p = []"
    using matches_short [of p s] by blast
  then have "expandOid s p = Inl NotFoundError"
    by (simp add: expandOid_def)
  then show "restore f s p = (Inl (CheckpointNotFound p), s)"
    by (rule restore_not_found)
next
  assume "2 \<le> length p \<and> {x \<in> set (known_oids s). prefix p x} = {}"
  then have "expandOid s p = Inl NotFoundError"
    using expandOid_none [of p s] by blast
  then show "restore f s p = (Inl (CheckpointNotFound p), s)"
    by (rule restore_not_found)
next
  assume h: "2 \<le> length p \<and> {x \<in> set (known_oids s). prefix p x} = {t} \<and>
    map_of (commits s) t = None"
  then have "expandOid s p = Inr t"
    using expandOid_one [of p s t] by blast
  with h show "restore f s p = (Inl (CheckpointNotFound p), s)"
    by (simp add: restore_def safeGitOperation_def readCommit_def)
next
  assume h: "2 \<le> length p \<and> {x \<in> set (known_oids s). prefix p x} = {t} \<and>
    map_of (commits s) t \<noteq> None"
  then show e: "expandOid s p = Inr t"
    using expandOid_one [of p s t] by blast
  from h obtain c where c: "map_of (commits s) t = Some c"
    by auto
  from e c show "fst (restore f s p) \<noteq> Inl (CheckpointNotFound p)"
    by (auto simp: op_defs Let_def split: sum.splits option.splits if_splits prod.splits)
  assume "refs s ''HEAD'' \<noteq> None \<and> \<not> failing f ''save ORIG_HEAD'' \<and>
       \<not> failing f ''reset HEAD to checkpoint''"
  with e c show "refs (snd (restore f s p)) ''HEAD'' = Some t"
    by (auto simp: op_defs Let_def split: sum.splits option.splits if_splits prod.splits)
next
  assume "2 \<le> length p \<and> a \<in> set (known_oids s) \<and> b \<in> set (known_oids s) \<and> a \<noteq> b \<and>
    prefix p a \<and> prefix p b"
  then have "expandOid s p = Inl AmbiguousError"
    using expandOid_many [of p a s b] by blast
  then show "restore f s p = (Inl (CheckpointNotFound p), s)"
    by (rule restore_not_found)
qed

lemma ex_known:
  "known_oids ex_repo =
      [''3f2a9c1e01'', ''3f2a9c1e02'', ''7b00d4e5aa'',
       ''a1'', ''a2'', ''b1'', ''a3'', ''a4'', ''b2'', ''a5'', ''a6'', ''b3'']"
  by (simp add: known_oids_def ex_repo_def)

theorem restore_resolves_prefix_witness:
  "{x \<in> set (known_oids ex_repo). prefix ''3f2a9c1e01'' x} = {''3f2a9c1e01''} \<and>
   fst (restore no_faults ex_repo ''3f2a9c1e01'') = Inr () \<and>
   refs (snd (restore no_faults ex_repo ''3f2a9c1e01'')) ''HEAD'' = Some ''3f2a9c1e01'' \<and>
   {x \<in> set (known_oids ex_repo). prefix ''ffff'' x} = {} \<and>
   restore no_faults ex_repo ''ffff'' = (Inl (CheckpointNotFound ''ffff''), ex_repo) \<and>
   {x \<in> set (known_oids ex_repo). prefix ''a1'' x} = {''a1''} \<and>
   restore no_faults ex_repo ''a1'' = (Inl (CheckpointNotFound ''a1''), ex_repo) \<and>
   restore no_faults ex_repo ''3f2a9c1e'' = (Inl (CheckpointNotFound ''3f2a9c1e''), ex_repo) \<and>
   {x \<in> set (known_oids ex_repo). prefix ''7'' x} = {''7b00d4e5aa''} \<and>
   restore no_faults ex_repo ''7'' = (Inl (CheckpointNotFound ''7''), ex_repo)"
proof -
  have "oid_matches ex_repo ''3f2a9c1e01'' = [''3f2a9c1e01'']"
    by (simp add: oid_matches_def startsWith_def ex_known)
  then have m1: "{x \<in> set (known_oids ex_repo). prefix ''3f2a9c1e01'' x} = {''3f2a9c1e01''}"
    by (simp add: matches_set_long [symmetric])
  have "oid_matches ex_repo ''ffff'' = []"
    by (simp add: oid_matches_def startsWith_def ex_known)
  then have m0: "{x \<in> set (known_oids ex_repo). prefix ''ffff'' x} = {}"
    by (simp add: matches_set_long [symmetric])
  have "oid_matches ex_repo ''a1'' = [''a1'']"
    by (simp add: oid_matches_def startsWith_def ex_known)
  then have m2: "{x \<in> set (known_oids ex_repo). prefix ''a1'' x} = {''a1''}"
    by (simp add: matches_set_long [symmetric])
  have "filter (prefix ''7'') (known_oids ex_repo) = [''7b00d4e5aa'']"
    by (simp add: ex_known)
  then have "set (filter (prefix ''7'') (known_oids ex_repo)) = {''7b00d4e5aa''}"
    by simp
  then have m7: "{x \<in> set (known_oids ex_repo). prefix ''7'' x} = {''7b00d4e5aa''}"
    by (simp only: set_filter)
  have l7: "length ''7'' < 2" "\<forall>x \<in> set (known_oids ex_repo). 2 \<le> length x"
    by (simp_all add: ex_known)
  have c1: "map_of (commits ex_repo) ''3f2a9c1e01'' \<noteq> None" "refs ex_repo ''HEAD'' \<noteq> None"
    by (simp_all add: ex_repo_def)
  have c2: "map_of (commits ex_repo) ''a1'' = None"
    by (simp add: ex_repo_def)
  have ab: "''3f2a9c1e01'' \<in> set (known_oids ex_repo)" "''3f2a9c1e02'' \<in> set (known_oids ex_repo)"
    "''3f2a9c1e01'' \<noteq> ''3f2a9c1e02''" "prefix ''3f2a9c1e'' ''3f2a9c1e01''"
    "prefix ''3f2a9c1e'' ''3f2a9c1e02''"
    by (simp_all add: ex_known)
  have len: "2 \<le> length ''3f2a9c1e01''" "2 \<le> length ''ffff''" "2 \<le> length ''a1''"
    "2 \<le> length ''3f2a9c1e''"
    by simp_all
  have nf: "\<not> failing no_faults ''save ORIG_HEAD''"
    "\<not> failing no_faults ''reset HEAD to checkpoint''"
    by (simp_all add: no_faults_def)
  from restore_resolves_prefix [where p = "''3f2a9c1e01''" and s = ex_repo and t = "''3f2a9c1e01''"
      and f = no_faults] m1 c1 len nf
  have "refs (snd (restore no_faults ex_repo ''3f2a9c1e01'')) ''HEAD'' = Some ''3f2a9c1e01''"
    by blast
  with ex_restore_ok
  have r1: "fst (restore no_faults ex_repo ''3f2a9c1e01'') = Inr () \<and>
      refs (snd (restore no_faults ex_repo ''3f2a9c1e01'')) ''HEAD'' = Some ''3f2a9c1e01''"
    by simp
  from restore_resolves_prefix [where p = "''ffff''" and s = ex_repo and f = no_faults] m0 len
  have r0: "restore no_faults ex_repo ''ffff'' = (Inl (CheckpointNotFound ''ffff''), ex_repo)"
    by blast
  from restore_resolves_prefix [where p = "''a1''" and s = ex_repo and t = "''a1''" and f = no_faults]
    m2 c2 len
  have r2: "restore no_faults ex_repo ''a1'' = (Inl (CheckpointNotFound ''a1''), ex_repo)"
    by blast
  from restore_resolves_prefix [where p = "''3f2a9c1e''" and s = ex_repo and f = no_faults
      and a = "''3f2a9c1e01''" and b = "''3f2a9c1e02''"] ab len
  have r3: "restore no_faults ex_repo ''3f2a9c1e'' = (Inl (CheckpointNotFound ''3f2a9c1e''), ex_repo)"
    by blast
  from restore_resolves_prefix [where p = "''7''" and s = ex_repo and f = no_faults] l7
  have r7: "restore no_faults ex_repo ''7'' = (Inl (CheckpointNotFound ''7''), ex_repo)"
    by blast
  from m1 m0 m2 m7 r1 r0 r2 r3 r7 show ?thesis
    by simp
qed

section \<open>The order of list\<close>

lemma list_no_options:
  "list e s no_options =
     (case git_log s 100 of
        Inl err \<Rightarrow> []
      | Inr cs \<Rightarrow>
          sort_key (\<lambda>cp. - int (timestamp cp))
            (map (\<lambda>oc. (parseCommitMessage e (commit_message (snd oc)) (fst oc) (cwd e))
                              \<lparr>timestamp := committer_timestamp (snd oc) * 1000\<rparr>) cs))"
  by (simp add: list_def no_options_def or_number_def safeGitOperation_def Let_def
      split: sum.splits)

lemma cp_id_parse [simp]: "cp_id (parseCommitMessage e m x p) = x"
  by (simp add: parseCommitMessage_def split: option.splits prod.splits)

lemma log_from_numeral:
  "log_from cs (numeral k) x =
     (case map_of cs x of
        None \<Rightarrow> Inl NotFoundError
      | Some c \<Rightarrow>
          if pred_numeral k = 0 then Inr [(x, c)]
          else (case parent c of
                  None \<Rightarrow> Inr [(x, c)]
                | Some p \<Rightarrow>
                    (case log_from cs (pred_numeral k) p of
                       Inl e \<Rightarrow> Inl e
                     | Inr r \<Rightarrow> Inr ((x, c) # r))))"
  by (simp add: numeral_eq_Suc)

lemma ex_log:
  "git_log ex_repo 100 =
     Inr [(''7b00d4e5aa'', ex_k3), (''3f2a9c1e02'', ex_k2), (''3f2a9c1e01'', ex_k1)]"
  by (simp add: git_log_def lookup_ref_def ex_repo_def log_from_numeral ex_k1_def ex_k2_def ex_k3_def)

text \<open>
  C5, as the specification states it: list returns the checkpoints in the order of the
  walk from \<^verbatim>\<open>HEAD\<close> and does not sort them again by time. In the example repository
  the oldest commit carries the latest time; the walk ends with it and list starts with
  it.
\<close>

theorem list_order_counterexample:
  "git_log ex_repo 100 =
     Inr [(''7b00d4e5aa'', ex_k3), (''3f2a9c1e02'', ex_k2), (''3f2a9c1e01'', ex_k1)] \<and>
   map cp_id (list ex_env ex_repo no_options) = [''3f2a9c1e01'', ''7b00d4e5aa'', ''3f2a9c1e02'']"
  by (simp add: list_no_options ex_log) (simp add: ex_k1_def ex_k2_def ex_k3_def)

text \<open>
  C5, amended. list sorts the walked checkpoints by the time of their commits, newest
  first, with a stable sort: without filter and limit the result holds the walked
  commits, each once, in descending order of time; checkpoints of the same time keep the
  order of the walk; and when the times never increase along the walk the result is the
  walk itself.
\<close>

theorem list_sorted_stable:
  assumes "git_log s 100 = Inr cs"
  shows "sorted_wrt (\<lambda>a b. timestamp b \<le> timestamp a) (list e s no_options) \<and>
         mset (map cp_id (list e s no_options)) = mset (map fst cs) \<and>
         (\<forall>t. map cp_id (filter (\<lambda>cp. timestamp cp = t) (list e s no_options)) =
               map fst (filter (\<lambda>oc. committer_timestamp (snd oc) * 1000 = t) cs)) \<and>
         (sorted_wrt (\<lambda>a b. committer_timestamp (snd b) \<le> committer_timestamp (snd a)) cs \<longrightarrow>
            map cp_id (list e s no_options) = map fst cs)"
proof -
  define mk where "mk = (\<lambda>oc :: oid \<times> commit. (parseCommitMessage e (commit_message (snd oc)) (fst oc) (cwd e))
                              \<lparr>timestamp := committer_timestamp (snd oc) * 1000\<rparr>)"
  define key where "key = (\<lambda>cp::CheckpointData. - int (timestamp cp))"
  have l: "list e s no_options = sort_key key (map mk cs)"
    using assms by (simp add: list_no_options mk_def key_def)
  have id_mk: "cp_id (mk oc) = fst oc" for oc
    by (simp add: mk_def)
  have ts_mk: "timestamp (mk oc) = committer_timestamp (snd oc) * 1000" for oc
    by (simp add: mk_def)
  have "sorted (map key (sort_key key (map mk cs)))"
    by (rule sorted_sort_key)
  then have a: "sorted_wrt (\<lambda>a b. timestamp b \<le> timestamp a) (list e s no_options)"
    by (simp add: l sorted_map key_def)
  have "mset (sort_key key (map mk cs)) = mset (map mk cs)"
    by simp
  then have "mset (map cp_id (sort_key key (map mk cs))) = mset (map cp_id (map mk cs))"
    by (simp only: mset_map)
  then have b: "mset (map cp_id (list e s no_options)) = mset (map fst cs)"
    by (simp add: l id_mk comp_def)
  have c: "map cp_id (filter (\<lambda>cp. timestamp cp = t) (list e s no_options)) =
               map fst (filter (\<lambda>oc. committer_timestamp (snd oc) * 1000 = t) cs)" for t
  proof -
    have "filter (\<lambda>cp. timestamp cp = t) (sort_key key (map mk cs))
            = filter (\<lambda>cp. key cp = - int t) (sort_key key (map mk cs))"
      by (simp add: key_def)
    also have "\<dots> = filter (\<lambda>cp. key cp = - int t) (map mk cs)"
      by (rule sort_key_stable)
    also have "\<dots> = filter (\<lambda>cp. timestamp cp = t) (map mk cs)"
      by (simp add: key_def)
    finally show ?thesis
      by (simp add: l filter_map comp_def ts_mk id_mk)
  qed
  have d: "map cp_id (list e s no_options) = map fst cs"
    if "sorted_wrt (\<lambda>a b. committer_timestamp (snd b) \<le> committer_timestamp (snd a)) cs"
  proof -
    from that have "sorted (map key (map mk cs))"
      by (simp add: sorted_map sorted_wrt_map key_def ts_mk)
    then have "sort_key key (map mk cs) = map mk cs"
      by (rule sort_key_id_if_sorted)
    then show ?thesis
      by (simp add: l id_mk comp_def)
  qed
  from a b c d show ?thesis
    by blast
qed

theorem list_sorted_stable_witness:
  "git_log ex_repo 100 =
     Inr [(''7b00d4e5aa'', ex_k3), (''3f2a9c1e02'', ex_k2), (''3f2a9c1e01'', ex_k1)] \<and>
   map cp_id (filter (\<lambda>cp. timestamp cp = 5000) (list ex_env ex_repo no_options))
     = [''7b00d4e5aa'', ''3f2a9c1e02''] \<and>
   sorted_wrt (\<lambda>a b. committer_timestamp (snd b) \<le> committer_timestamp (snd a))
     [(''3f2a9c1e01'', ex_k1)] \<and>
   git_log (chain_repo 1) 100 = Inr [(chain_oid 0, chain_commit 0)] \<and>
   map cp_id (list ex_env (chain_repo 1) no_options) = [chain_oid 0]"
proof -
  have g: "git_log (chain_repo 1) 100 = Inr [(chain_oid 0, chain_commit 0)]"
    by (simp add: git_log_def lookup_ref_def chain_repo_def log_from_numeral chain_commit_def)
  have s: "sorted_wrt (\<lambda>a b. committer_timestamp (snd b) \<le> committer_timestamp (snd a))
     [(chain_oid 0, chain_commit 0)]"
    by simp
  from list_sorted_stable [OF ex_log, of ex_env]
  have "map cp_id (filter (\<lambda>cp. timestamp cp = 5000) (list ex_env ex_repo no_options))
     = map fst (filter (\<lambda>oc. committer_timestamp (snd oc) * 1000 = 5000)
         [(''7b00d4e5aa'', ex_k3), (''3f2a9c1e02'', ex_k2), (''3f2a9c1e01'', ex_k1)])"
    by blast
  then have 1: "map cp_id (filter (\<lambda>cp. timestamp cp = 5000) (list ex_env ex_repo no_options))
     = [''7b00d4e5aa'', ''3f2a9c1e02'']"
    by (simp add: ex_k1_def ex_k2_def ex_k3_def)
  from list_sorted_stable [OF g, of ex_env] s
  have 2: "map cp_id (list ex_env (chain_repo 1) no_options) = [chain_oid 0]"
    by simp
  from ex_log g 1 2 show ?thesis
    by simp
qed

section \<open>The depth of list\<close>

lemma log_from_length: "log_from cs n x = Inr r \<Longrightarrow> length r \<le> n"
proof (induction n arbitrary: x r)
  case 0
  then show ?case by simp
next
  case (Suc n)
  then show ?case
    by (fastforce split: option.splits if_splits sum.splits)
qed

lemma log_from_take: "log_from cs n x = Inr r \<Longrightarrow> m \<le> n \<Longrightarrow> log_from cs m x = Inr (take m r)"
proof (induction n arbitrary: m x r)
  case 0
  then show ?case by simp
next
  case (Suc n)
  show ?case
  proof (cases m)
    case 0
    then show ?thesis by simp
  next
    case (Suc m')
    with Suc.prems have le: "m' \<le> n" by simp
    from Suc.prems(1) obtain c where c: "map_of cs x = Some c"
      by (auto split: option.splits)
    show ?thesis
    proof (cases "n = 0 \<or> parent c = None")
      case True
      with Suc.prems(1) c have "r = [(x, c)]"
        by (auto split: if_splits)
      with True c le Suc show ?thesis
        by auto
    next
      case False
      then obtain p where p: "parent c = Some p" and n: "n \<noteq> 0"
        by auto
      with Suc.prems(1) c obtain r' where r': "log_from cs n p = Inr r'" "r = (x, c) # r'"
        by (auto split: sum.splits)
      from Suc.IH [OF r'(1) le] have "log_from cs m' p = Inr (take m' r')" .
      with c p r' Suc show ?thesis
        by simp
    qed
  qed
qed

lemma list_ids_mset:
  assumes "git_log s 100 = Inr cs"
  shows "mset (map cp_id (list e s no_options)) = mset (map fst cs)"
proof -
  define mk where "mk = (\<lambda>oc :: oid \<times> commit.
      (parseCommitMessage e (commit_message (snd oc)) (fst oc) (cwd e))
        \<lparr>timestamp := committer_timestamp (snd oc) * 1000\<rparr>)"
  define key where "key = (\<lambda>cp::CheckpointData. - int (timestamp cp))"
  have l: "list e s no_options = sort_key key (map mk cs)"
    using assms by (simp add: list_no_options mk_def key_def)
  have "mset (sort_key key (map mk cs)) = mset (map mk cs)"
    by simp
  then have "mset (map cp_id (sort_key key (map mk cs))) = mset (map cp_id (map mk cs))"
    by (simp only: mset_map)
  then show ?thesis
    by (simp add: l mk_def comp_def)
qed

text \<open>
  C6, amended. Without a limit the walk of list stops after 100 commits: the result
  holds at most 100 checkpoints, and they are the first 100 commits of any longer walk
  from \<^verbatim>\<open>HEAD\<close>.
\<close>

theorem list_default_depth:
  "length (list e s no_options) \<le> 100 \<and>
   (git_log s n = Inr cs \<and> 100 \<le> n \<longrightarrow>
      mset (map cp_id (list e s no_options)) = mset (map fst (take 100 cs)))"
proof (intro conjI impI)
  show "length (list e s no_options) \<le> 100"
    by (auto simp: list_no_options git_log_def split: sum.splits dest: log_from_length)
next
  assume h: "git_log s n = Inr cs \<and> 100 \<le> n"
  then obtain x where x: "lookup_ref s ''HEAD'' = Inr x" "log_from (commits s) n x = Inr cs"
    by (auto simp: git_log_def split: sum.splits)
  from log_from_take [OF x(2), of 100] h have "log_from (commits s) 100 x = Inr (take 100 cs)"
    by simp
  with x have "git_log s 100 = Inr (take 100 cs)"
    by (simp add: git_log_def)
  then show "mset (map cp_id (list e s no_options)) = mset (map fst (take 100 cs))"
    by (rule list_ids_mset)
qed

lemma chain_oid_inj: "i < 256 \<Longrightarrow> j < 256 \<Longrightarrow> chain_oid i = chain_oid j \<Longrightarrow> i = j"
proof -
  assume i: "i < 256" and j: "j < 256" and e: "chain_oid i = chain_oid j"
  have d: "distinct ''0123456789abcdef''"
    by simp
  have l: "length ''0123456789abcdef'' = 16"
    by simp
  from i j have b: "i div 16 < 16" "j div 16 < 16" "i mod 16 < 16" "j mod 16 < 16"
    by simp_all
  from e have "''0123456789abcdef'' ! (i div 16) = ''0123456789abcdef'' ! (j div 16)"
    and "''0123456789abcdef'' ! (i mod 16) = ''0123456789abcdef'' ! (j mod 16)"
    by (simp_all add: chain_oid_def)
  with d b l have "i div 16 = j div 16" "i mod 16 = j mod 16"
    by (simp_all only: nth_eq_iff_index_eq)
  then show "i = j"
    by (metis div_mult_mod_eq)
qed

lemma chain_lookup:
  assumes "k < n" "n \<le> 256"
  shows "map_of (map (\<lambda>i. (chain_oid i, chain_commit i)) (rev [0..<n])) (chain_oid k)
           = Some (chain_commit k)"
proof (rule map_of_is_SomeI)
  have "inj_on chain_oid (set (rev [0..<n]))"
    using assms(2) by (auto intro!: inj_onI chain_oid_inj)
  then show "distinct (map fst (map (\<lambda>i. (chain_oid i, chain_commit i)) (rev [0..<n])))"
    by (simp add: comp_def distinct_map)
  from assms(1) show "(chain_oid k, chain_commit k)
      \<in> set (map (\<lambda>i. (chain_oid i, chain_commit i)) (rev [0..<n]))"
    by auto
qed

lemma chain_log_from:
  assumes "n \<le> 256"
  shows "k < n \<Longrightarrow>
    log_from (map (\<lambda>i. (chain_oid i, chain_commit i)) (rev [0..<n])) d (chain_oid k)
      = Inr (map (\<lambda>i. (chain_oid i, chain_commit i)) (take d (rev [0..<Suc k])))"
proof (induction d arbitrary: k)
  case 0
  then show ?case by simp
next
  case (Suc d)
  note lk = chain_lookup [OF Suc.prems assms]
  show ?case
  proof (cases k)
    case 0
    with lk show ?thesis
      by (simp add: chain_commit_def)
  next
    case (Suc k')
    with Suc.prems have "k' < n" by simp
    from Suc.IH [OF this] lk Suc show ?thesis
      by (simp add: chain_commit_def)
  qed
qed

lemma chain_git_log:
  "0 < n \<Longrightarrow> n \<le> 256 \<Longrightarrow>
   git_log (chain_repo n) d = Inr (map (\<lambda>i. (chain_oid i, chain_commit i)) (take d (rev [0..<n])))"
  using chain_log_from [of n "n - 1" d]
  by (simp add: git_log_def lookup_ref_def chain_repo_def)

text \<open>
  C6, as the specification states it: without a limit, list returns a checkpoint for
  every commit reachable from \<^verbatim>\<open>HEAD\<close>. In a history of 101 commits in a line, all
  of them reachable from \<^verbatim>\<open>HEAD\<close>, it returns 100.
\<close>

theorem list_unbounded_counterexample:
  "git_log (chain_repo 101) 101 = Inr (commits (chain_repo 101)) \<and>
   length (commits (chain_repo 101)) = 101 \<and>
   length (list ex_env (chain_repo 101) no_options) = 100"
proof -
  have a: "git_log (chain_repo 101) 101 = Inr (commits (chain_repo 101))"
    by (simp add: chain_git_log) (simp add: chain_repo_def)
  have b: "length (commits (chain_repo 101)) = 101"
    by (simp add: chain_repo_def)
  have "git_log (chain_repo 101) 100
          = Inr (map (\<lambda>i. (chain_oid i, chain_commit i)) (take 100 (rev [0..<101])))"
    by (simp add: chain_git_log)
  then have c: "length (list ex_env (chain_repo 101) no_options) = 100"
    by (simp add: list_no_options)
  from a b c show ?thesis
    by simp
qed

theorem list_default_depth_witness:
  "git_log (chain_repo 101) 101 = Inr (commits (chain_repo 101)) \<and> (100::nat) \<le> 101 \<and>
   mset (map cp_id (list ex_env (chain_repo 101) no_options))
     = mset (map fst (take 100 (commits (chain_repo 101))))"
proof -
  have a: "git_log (chain_repo 101) 101 = Inr (commits (chain_repo 101))"
    by (simp add: chain_git_log) (simp add: chain_repo_def)
  from list_default_depth [of ex_env "chain_repo 101" 101 "commits (chain_repo 101)"] a
  show ?thesis
    by simp
qed

section \<open>The refs and the session id of create\<close>

lemmas create_defs = create_def git_commit_def git_add_def syncProjectToSnapshots_def
  writeRef_def emit_def safeGitOperation_def

lemma create_no_faults:
  "\<exists>cp. fst (create no_faults e s msg sessId promptIdx) = Inr cp"
  by (simp add: create_defs no_faults_def Let_def split: prod.splits)

lemma create_cases:
  "(\<exists>err. fst (create f e s msg sessId promptIdx) = Inl err) \<or>
   (\<exists>sha. fst (create f e s msg sessId promptIdx) =
      Inr \<lparr>cp_id = sha,
           sessionId = or_string (CCHECKPOINT_SESSION_ID e) (or_string sessId ''manual''),
           promptIndex = or_number promptIdx
             (getPromptIndexFromTranscript e (CCHECKPOINT_TRANSCRIPT_PATH e)),
           message = msg, timestamp = now e, projectPath = cwd e\<rparr>)"
  by (simp add: create_defs Let_def split: prod.splits)

lemma create_session:
  assumes "fst (create f e s msg sessId promptIdx) = Inr cp"
  shows "sessionId cp = or_string (CCHECKPOINT_SESSION_ID e) (or_string sessId ''manual'')"
proof -
  from create_cases [of f e s msg sessId promptIdx] assms obtain sha where
    "Inr cp = (Inr \<lparr>cp_id = sha,
           sessionId = or_string (CCHECKPOINT_SESSION_ID e) (or_string sessId ''manual''),
           promptIndex = or_number promptIdx
             (getPromptIndexFromTranscript e (CCHECKPOINT_TRANSCRIPT_PATH e)),
           message = msg, timestamp = now e, projectPath = cwd e\<rparr> :: error + CheckpointData)"
    by auto
  then have "cp = \<lparr>cp_id = sha,
           sessionId = or_string (CCHECKPOINT_SESSION_ID e) (or_string sessId ''manual''),
           promptIndex = or_number promptIdx
             (getPromptIndexFromTranscript e (CCHECKPOINT_TRANSCRIPT_PATH e)),
           message = msg, timestamp = now e, projectPath = cwd e\<rparr>"
    by (simp only: sum.inject)
  then show ?thesis
    by simp
qed

text \<open>
  C9. create leaves \<^verbatim>\<open>ORIG_HEAD\<close> as it finds it, present or absent, whether it
  succeeds or throws, and touches no ref but \<^verbatim>\<open>HEAD\<close>: a create that succeeds has
  copied the project into the snapshots directory, staged it, committed on top of
  \<^verbatim>\<open>HEAD\<close> and written the new id to \<^verbatim>\<open>HEAD\<close>, and has done nothing else to the
  refs; one that throws has done an initial part of this.
\<close>

theorem create_keeps_ORIG_HEAD:
  "refs (snd (create f e s msg sessId promptIdx)) ''ORIG_HEAD'' = refs s ''ORIG_HEAD'' \<and>
   (fst (create f e s msg sessId promptIdx) = Inr cp \<longrightarrow>
      trace (snd (create f e s msg sessId promptIdx)) =
        trace s @ [EvSyncProjectToSnapshots, EvAdd, EvResolveRef ''HEAD'', EvCommit (cp_id cp),
                   EvWriteRef ''HEAD'' (cp_id cp)]) \<and>
   prefix (trace s) (trace (snd (create f e s msg sessId promptIdx))) \<and>
   (\<exists>sha. prefix (trace (snd (create f e s msg sessId promptIdx)))
      (trace s @ [EvSyncProjectToSnapshots, EvAdd, EvResolveRef ''HEAD'', EvCommit sha,
                  EvWriteRef ''HEAD'' sha]))"
  by (auto simp: create_defs Let_def split: prod.splits if_splits sum.splits)

lemma ex_create:
  "fst (create no_faults ex_env ex_repo ''v4'' (Some '''') None) =
     Inr \<lparr>cp_id = ''c0ffee0001'', sessionId = ''manual'', promptIndex = 7000, message = ''v4'',
          timestamp = 7000, projectPath = ''/home/u/p''\<rparr>"
  by (simp add: create_defs no_faults_def or_string_def or_number_def
      getPromptIndexFromTranscript_def ex_env_def Let_def split: prod.splits)

theorem create_keeps_ORIG_HEAD_witness:
  "fst (create no_faults ex_env ex_repo ''v4'' (Some '''') None) =
     Inr \<lparr>cp_id = ''c0ffee0001'', sessionId = ''manual'', promptIndex = 7000, message = ''v4'',
          timestamp = 7000, projectPath = ''/home/u/p''\<rparr> \<and>
   refs (snd (create no_faults ex_env ex_repo ''v4'' (Some '''') None)) ''ORIG_HEAD'' = None \<and>
   trace (snd (create no_faults ex_env ex_repo ''v4'' (Some '''') None)) =
     [EvSyncProjectToSnapshots, EvAdd, EvResolveRef ''HEAD'', EvCommit ''c0ffee0001'',
      EvWriteRef ''HEAD'' ''c0ffee0001'']"
proof -
  have r: "refs ex_repo ''ORIG_HEAD'' = None" "trace ex_repo = []"
    by (simp_all add: ex_repo_def)
  from create_keeps_ORIG_HEAD [where f = no_faults and e = ex_env and s = ex_repo
      and msg = "''v4''" and sessId = "Some ''''" and promptIdx = None
      and cp = "\<lparr>cp_id = ''c0ffee0001'', sessionId = ''manual'', promptIndex = 7000,
                  message = ''v4'', timestamp = 7000, projectPath = ''/home/u/p''\<rparr>"]
    ex_create r
  show ?thesis
    by simp
qed

text \<open>
  C10, as stated: without the environment variable, the session id of the checkpoint is
  the argument when one is given. Given the empty string as the argument, create
  answers \<^verbatim>\<open>manual\<close>.
\<close>

theorem create_sessionId_counterexample:
  "CCHECKPOINT_SESSION_ID ex_env = None \<and>
   fst (create no_faults ex_env ex_repo ''v4'' (Some '''') None) =
     Inr \<lparr>cp_id = ''c0ffee0001'', sessionId = ''manual'', promptIndex = 7000, message = ''v4'',
          timestamp = 7000, projectPath = ''/home/u/p''\<rparr> \<and>
   ''manual'' \<noteq> ''''"
  by (simp add: ex_create) (simp add: ex_env_def)

text \<open>
  C10, amended. The session id of the checkpoint that create returns is the environment
  variable \<^verbatim>\<open>CCHECKPOINT_SESSION_ID\<close> when it is set and not empty, whatever the
  argument; otherwise the argument when it is given and not empty; otherwise
  \<^verbatim>\<open>manual\<close>. A create in which no write fails returns a checkpoint.
\<close>

theorem create_sessionId_precedence:
  "(fst (create f e s msg sessId promptIdx) = Inr cp \<and>
    CCHECKPOINT_SESSION_ID e = Some h \<and> h \<noteq> [] \<longrightarrow> sessionId cp = h) \<and>
   (fst (create f e s msg sessId promptIdx) = Inr cp \<and>
    (CCHECKPOINT_SESSION_ID e = None \<or> CCHECKPOINT_SESSION_ID e = Some []) \<and>
    sessId = Some a \<and> a \<noteq> [] \<longrightarrow> sessionId cp = a) \<and>
   (fst (create f e s msg sessId promptIdx) = Inr cp \<and>
    (CCHECKPOINT_SESSION_ID e = None \<or> CCHECKPOINT_SESSION_ID e = Some []) \<and>
    (sessId = None \<or> sessId = Some []) \<longrightarrow> sessionId cp = ''manual'') \<and>
   (\<exists>cp'. fst (create no_faults e s msg sessId promptIdx) = Inr cp')"
proof (intro conjI impI)
  assume "fst (create f e s msg sessId promptIdx) = Inr cp \<and>
    CCHECKPOINT_SESSION_ID e = Some h \<and> h \<noteq> []"
  then show "sessionId cp = h"
    using create_session [of f e s msg sessId promptIdx cp] by (auto simp: or_string_def)
next
  assume "fst (create f e s msg sessId promptIdx) = Inr cp \<and>
    (CCHECKPOINT_SESSION_ID e = None \<or> CCHECKPOINT_SESSION_ID e = Some []) \<and>
    sessId = Some a \<and> a \<noteq> []"
  then show "sessionId cp = a"
    using create_session [of f e s msg sessId promptIdx cp] by (auto simp: or_string_def)
next
  assume "fst (create f e s msg sessId promptIdx) = Inr cp \<and>
    (CCHECKPOINT_SESSION_ID e = None \<or> CCHECKPOINT_SESSION_ID e = Some []) \<and>
    (sessId = None \<or> sessId = Some [])"
  then show "sessionId cp = ''manual''"
    using create_session [of f e s msg sessId promptIdx cp] by (auto simp: or_string_def)
next
  show "\<exists>cp'. fst (create no_faults e s msg sessId promptIdx) = Inr cp'"
    by (rule create_no_faults)
qed

theorem create_sessionId_precedence_witness:
  "(\<exists>cp. fst (create no_faults (ex_env\<lparr>CCHECKPOINT_SESSION_ID := Some ''ab12''\<rparr>) ex_repo ''v4''
            (Some ''cd34'') None) = Inr cp \<and> sessionId cp = ''ab12'') \<and>
   (\<exists>cp. fst (create no_faults ex_env ex_repo ''v4'' (Some ''cd34'') None) = Inr cp \<and>
         sessionId cp = ''cd34'') \<and>
   (\<exists>cp. fst (create no_faults ex_env ex_repo ''v4'' None None) = Inr cp \<and>
         sessionId cp = ''manual'')"
proof -
  have n: "CCHECKPOINT_SESSION_ID ex_env = None"
    by (simp add: ex_env_def)
  have h: "CCHECKPOINT_SESSION_ID (ex_env\<lparr>CCHECKPOINT_SESSION_ID := Some ''ab12''\<rparr>) = Some ''ab12''"
    by simp
  obtain c1 where c1: "fst (create no_faults (ex_env\<lparr>CCHECKPOINT_SESSION_ID := Some ''ab12''\<rparr>)
      ex_repo ''v4'' (Some ''cd34'') None) = Inr c1"
    using create_no_faults by blast
  obtain c2 where c2: "fst (create no_faults ex_env ex_repo ''v4'' (Some ''cd34'') None) = Inr c2"
    using create_no_faults by blast
  obtain c3 where c3: "fst (create no_faults ex_env ex_repo ''v4'' None None) = Inr c3"
    using create_no_faults by blast
  from create_sessionId_precedence [where f = no_faults
      and e = "ex_env\<lparr>CCHECKPOINT_SESSION_ID := Some ''ab12''\<rparr>"
      and h = "''ab12''" and s = ex_repo and msg = "''v4''" and sessId = "Some ''cd34''"
      and promptIdx = None and cp = c1] h c1
  have 1: "sessionId c1 = ''ab12''"
    by simp
  from create_sessionId_precedence [where f = no_faults and e = ex_env and s = ex_repo
      and msg = "''v4''" and sessId = "Some ''cd34''" and a = "''cd34''" and promptIdx = None
      and cp = c2] n c2
  have 2: "sessionId c2 = ''cd34''"
    by simp
  from create_sessionId_precedence [where f = no_faults and e = ex_env and s = ex_repo
      and msg = "''v4''" and sessId = None and promptIdx = None and cp = c3] n c3
  have 3: "sessionId c3 = ''manual''"
    by simp
  from c1 c2 c3 1 2 3 show ?thesis
    by blast
qed

section \<open>What diff returns\<close>

lemma diff_nothing: "lookup_ref s ''HEAD'' = Inr cur \<Longrightarrow> diff s ident = Inr []"
  by (simp add: diff_def call_walk_def split: sum.splits)

text \<open>
  C7. The claim fails on the code: the callback that classifies a path is never run. In
  the example repository the first checkpoint and the commit at \<^verbatim>\<open>HEAD\<close> differ at
  \<^verbatim>\<open>snapshots/a.txt\<close>, which both have under different ids and which the callback would
  report modified, and at \<^verbatim>\<open>snapshots/b.txt\<close>, which only the commit at \<^verbatim>\<open>HEAD\<close> has
  and which the callback would report added; diff of the first checkpoint returns the
  empty list.
\<close>

theorem diff_returns_nothing:
  "lookup_ref ex_repo ''HEAD'' = Inr ''7b00d4e5aa'' \<and>
   resolve_tree ex_repo ''3f2a9c1e01'' = Some (TTree (tree_oid ex_k1) (entries ex_k1)) \<and>
   resolve_tree ex_repo ''7b00d4e5aa'' = Some (TTree (tree_oid ex_k3) (entries ex_k3)) \<and>
   entry_at (Some (TTree (tree_oid ex_k1) (entries ex_k1))) [''snapshots'', ''a.txt'']
     = Some (TBlob ''b1'' ''1'') \<and>
   entry_at (Some (TTree (tree_oid ex_k3) (entries ex_k3))) [''snapshots'', ''a.txt'']
     = Some (TBlob ''b2'' ''2'') \<and>
   diff_entry ''snapshots/a.txt'' (Some (TBlob ''b1'' ''1'')) (Some (TBlob ''b2'' ''2''))
     = [(''modified'', ''snapshots/a.txt'')] \<and>
   entry_at (Some (TTree (tree_oid ex_k1) (entries ex_k1))) [''snapshots'', ''b.txt''] = None \<and>
   entry_at (Some (TTree (tree_oid ex_k3) (entries ex_k3))) [''snapshots'', ''b.txt'']
     = Some (TBlob ''b3'' ''x'') \<and>
   diff_entry ''snapshots/b.txt'' None (Some (TBlob ''b3'' ''x''))
     = [(''added'', ''snapshots/b.txt'')] \<and>
   diff ex_repo ''3f2a9c1e01'' = Inr []"
proof -
  have h: "lookup_ref ex_repo ''HEAD'' = Inr ''7b00d4e5aa''"
    by (simp add: lookup_ref_def ex_repo_def)
  have t: "resolve_tree ex_repo ''3f2a9c1e01'' = Some (TTree (tree_oid ex_k1) (entries ex_k1))"
    "resolve_tree ex_repo ''7b00d4e5aa'' = Some (TTree (tree_oid ex_k3) (entries ex_k3))"
    by (simp_all add: resolve_tree_def ex_repo_def)
  have e: "entry_at (Some (TTree (tree_oid ex_k1) (entries ex_k1))) [''snapshots'', ''a.txt'']
     = Some (TBlob ''b1'' ''1'')"
    "entry_at (Some (TTree (tree_oid ex_k3) (entries ex_k3))) [''snapshots'', ''a.txt'']
     = Some (TBlob ''b2'' ''2'')"
    "entry_at (Some (TTree (tree_oid ex_k1) (entries ex_k1))) [''snapshots'', ''b.txt''] = None"
    "entry_at (Some (TTree (tree_oid ex_k3) (entries ex_k3))) [''snapshots'', ''b.txt'']
     = Some (TBlob ''b3'' ''x'')"
    by (simp_all add: ex_k1_def ex_k3_def)
  have c: "diff_entry ''snapshots/a.txt'' (Some (TBlob ''b1'' ''1'')) (Some (TBlob ''b2'' ''2''))
     = [(''modified'', ''snapshots/a.txt'')]"
    "diff_entry ''snapshots/b.txt'' None (Some (TBlob ''b3'' ''x''))
     = [(''added'', ''snapshots/b.txt'')]"
    by (simp_all add: diff_entry_def)
  from h t e c diff_nothing [OF h] show ?thesis
    by simp
qed

section \<open>Parsing a stored commit message\<close>

lemma suffix_last: "suffix t (m @ [c]) \<Longrightarrow> t \<noteq> [] \<Longrightarrow> c \<in> set t"
proof -
  assume "suffix t (m @ [c])" and ne: "t \<noteq> []"
  then obtain zs where z: "m @ [c] = zs @ t"
    by (auto simp: suffix_def)
  from ne have "last (zs @ t) = last t"
    by simp
  with z have "last t = c"
    by (metis last_snoc)
  with ne show "c \<in> set t"
    by (metis last_in_set)
qed

lemma sessionMatch_line_feed: "sessionMatch (m @ [CHR 0x0A]) = None"
proof (cases "sessionMatch (m @ [CHR 0x0A])")
  case None
  then show ?thesis .
next
  case (Some st)
  let ?msg = "m @ [CHR 0x0A]"
  let ?t = "drop 3 (dropWhile sid_char (drop 9 ?msg))"
  from Some have ne: "?t \<noteq> []" and nl: "\<not> list_ex line_terminator ?t"
    by (auto simp: sessionMatch_def Let_def split: if_splits)
  have "suffix ?t (dropWhile sid_char (drop 9 ?msg))"
    by (rule suffix_drop)
  also have "suffix \<dots> (drop 9 ?msg)"
    by (rule suffix_dropWhile)
  also have "suffix \<dots> ?msg"
    by (rule suffix_drop)
  finally have "CHR 0x0A \<in> set ?t"
    using ne by (rule suffix_last)
  then have "list_ex line_terminator ?t"
    by (auto simp: list_ex_iff line_terminator_def)
  with nl show ?thesis
    by simp
qed

lemma normalizeNewlines_end: "\<exists>m'. normalizeNewlines m = m' @ [CHR 0x0A]"
  by (simp add: normalizeNewlines_def Let_def)

lemma ex_create_list:
  "map sessionId (list ex_env (snd (create no_faults ex_env (chain_repo 1)
      ''Session: ab12-cd - fix the bug'' (Some ''ab12-cd'') None)) no_options)
   = [''manual'', ''manual'']"
  by (simp add: create_def git_commit_def git_add_def syncProjectToSnapshots_def
      writeRef_def emit_def safeGitOperation_def no_faults_def list_no_options git_log_def
      lookup_ref_def log_from_numeral chain_repo_def chain_commit_def chain_oid_def ex_env_def
      Let_def parseCommitMessage_def normalizeNewlines_def sessionMatch_def sid_char_def
      line_terminator_def split: prod.splits)

text \<open>
  C8. The claim fails on the code for every message the program parses. A message read
  back from the repository ends with the line feed the library adds, so the regular
  expression never matches it: every stored message yields the session id
  \<^verbatim>\<open>manual\<close> and is kept whole, the message \<^verbatim>\<open>Session: ab12-cd - fix the bug\<close>
  included, which is stored with a line feed at its end and still has the shape
  \<^verbatim>\<open>Session: <sessionId> - <text>\<close>; a checkpoint created with it is listed with the
  session id \<^verbatim>\<open>manual\<close>.
\<close>

theorem parse_stored_message:
  "sessionId (parseCommitMessage e (normalizeNewlines m) x p) = ''manual'' \<and>
   message (parseCommitMessage e (normalizeNewlines m) x p) = normalizeNewlines m \<and>
   normalizeNewlines ''Session: ab12-cd - fix the bug''
     = ''Session: ab12-cd - fix the bug'' @ [CHR 0x0A] \<and>
   session_form (''Session: ab12-cd - fix the bug'' @ [CHR 0x0A]) ''ab12-cd''
     (''fix the bug'' @ [CHR 0x0A]) \<and>
   map sessionId (list ex_env (snd (create no_faults ex_env (chain_repo 1)
      ''Session: ab12-cd - fix the bug'' (Some ''ab12-cd'') None)) no_options)
   = [''manual'', ''manual'']"
proof -
  from normalizeNewlines_end [of m] obtain m' where "normalizeNewlines m = m' @ [CHR 0x0A]"
    by blast
  then have "sessionMatch (normalizeNewlines m) = None"
    by (simp add: sessionMatch_line_feed)
  then have "sessionId (parseCommitMessage e (normalizeNewlines m) x p) = ''manual''"
    "message (parseCommitMessage e (normalizeNewlines m) x p) = normalizeNewlines m"
    by (simp_all add: parseCommitMessage_def)
  moreover have "normalizeNewlines ''Session: ab12-cd - fix the bug''
     = ''Session: ab12-cd - fix the bug'' @ [CHR 0x0A]"
    by (simp add: normalizeNewlines_def Let_def)
  moreover have "session_form (''Session: ab12-cd - fix the bug'' @ [CHR 0x0A]) ''ab12-cd''
     (''fix the bug'' @ [CHR 0x0A])"
    by (simp add: session_form_def)
  ultimately show ?thesis
    using ex_create_list by simp
qed

end
